theory Spec2Isabelle
  imports Complex_Main "HOL-Library.AList"
begin

section \<open>Invoice extractor: ledger, exporter, normalizer and batch loop\<close>

text \<open>
  The development embeds the editing functions and the CSV exporter of
  \<^verbatim>\<open>src/app/page.tsx\<close> and the reply handling of the extraction route
  (\<^verbatim>\<open>POST\<close>).

  Conventions of the embedding.
  \<^item> A JavaScript number is a \<^typ>\<open>real\<close>: arithmetic is exact, so rounding,
    \<^verbatim>\<open>NaN\<close> and the infinities are outside the model.
  \<^item> A string is a list of 8-bit characters, read as the code units below
    256 (the Latin-1 range): \<open>CHR 0xA0\<close> is the no-break space.
  \<^item> The ledger state \<^verbatim>\<open>extractedInvoices\<close> is typed \<^verbatim>\<open>any[]\<close> in the
    source. Its entries are modelled as records whose fields carry a value of
    the type the extraction schema gives them, or are absent (\<open>None\<close> stands
    for both \<^verbatim>\<open>null\<close> and \<^verbatim>\<open>undefined\<close>).
  \<^item> The state setter is modelled by returning the new ledger; a function that
    throws before it reaches the setter returns the error instead.
\<close>

subsection \<open>Ledger data\<close>

record line_item =
  description :: "string option"
  quantity :: "real option"
  unit_price :: "real option"
  line_total :: "real option"

record invoice =
  vendor_name :: "string option"
  vendor_address :: "string option"
  vendor_email :: "string option"
  vendor_phone :: "string option"
  invoice_number :: "string option"
  invoice_date :: "string option"
  due_date :: "string option"
  purchase_order_number :: "string option"
  subtotal :: "real option"
  tax_amount :: "real option"
  total_amount :: "real option"
  line_items :: "line_item list option"
  filename :: "string option"

type_synonym ledger = "invoice list"

text \<open>
  \<open>TypeError\<close>: a property of \<^verbatim>\<open>undefined\<close> or \<^verbatim>\<open>null\<close> is read, or such
  a value is spread as an iterable. \<open>SparseArray\<close>: the write would leave holes
  in a JavaScript array, which a list cannot hold.
\<close>

datatype ledger_error = TypeError | SparseArray

text \<open>The expression \<^verbatim>\<open>x || 0\<close> on a numeric field.\<close>

fun or_zero :: "real option \<Rightarrow> real" where
  "or_zero None = 0"
| "or_zero (Some x) = x"

text \<open>The expression \<^verbatim>\<open>s || ""\<close> on a text field.\<close>

fun or_empty :: "string option \<Rightarrow> string" where
  "or_empty None = []"
| "or_empty (Some s) = s"

text \<open>
  \<^verbatim>\<open>items.reduce((sum, item) => sum + (item.line_total || 0), 0)\<close>, a left fold.
\<close>

definition sum_line_totals :: "line_item list \<Rightarrow> real" where
  "sum_line_totals items = foldl (\<lambda>sum item. sum + or_zero (line_total item)) 0 items"

text \<open>
  The block that ends \<^verbatim>\<open>updateLineItem\<close>, \<^verbatim>\<open>addLineItem\<close> and
  \<^verbatim>\<open>deleteLineItem\<close>: store the new item array, then
  \<^verbatim>\<open>subtotal = reduce(...)\<close> and
  \<^verbatim>\<open>total_amount = subtotal + (tax_amount || 0)\<close>.
\<close>

definition recalculate :: "invoice \<Rightarrow> line_item list \<Rightarrow> invoice" where
  "recalculate iv items =
     (let subtotal' = sum_line_totals items
      in iv\<lparr>line_items := Some items,
             subtotal := Some subtotal',
             total_amount := Some (subtotal' + or_zero (tax_amount iv))\<rparr>)"

subsection \<open>updateInvoice\<close>

text \<open>
  The pair \<^verbatim>\<open>(field, value)\<close> of \<^verbatim>\<open>updateInvoice\<close>. The edit surface passes
  the text of an input for the text fields and \<^verbatim>\<open>parseFloat(...) || 0\<close> for
  the amounts.
\<close>

datatype text_field =
  Vendor_name | Vendor_address | Vendor_email | Vendor_phone
  | Invoice_number | Invoice_date | Due_date | Purchase_order_number

datatype amount_field = Subtotal | Tax_amount | Total_amount

datatype invoice_edit = Set_text text_field string | Set_amount amount_field real

definition empty_invoice :: invoice where
  "empty_invoice =
     \<lparr>vendor_name = None, vendor_address = None, vendor_email = None,
      vendor_phone = None, invoice_number = None, invoice_date = None,
      due_date = None, purchase_order_number = None, subtotal = None,
      tax_amount = None, total_amount = None, line_items = None,
      filename = None\<rparr>"

text \<open>\<^verbatim>\<open>{...iv, [field]: value}\<close>\<close>

fun set_field :: "invoice \<Rightarrow> invoice_edit \<Rightarrow> invoice" where
  "set_field iv (Set_text Vendor_name v) = iv\<lparr>vendor_name := Some v\<rparr>"
| "set_field iv (Set_text Vendor_address v) = iv\<lparr>vendor_address := Some v\<rparr>"
| "set_field iv (Set_text Vendor_email v) = iv\<lparr>vendor_email := Some v\<rparr>"
| "set_field iv (Set_text Vendor_phone v) = iv\<lparr>vendor_phone := Some v\<rparr>"
| "set_field iv (Set_text Invoice_number v) = iv\<lparr>invoice_number := Some v\<rparr>"
| "set_field iv (Set_text Invoice_date v) = iv\<lparr>invoice_date := Some v\<rparr>"
| "set_field iv (Set_text Due_date v) = iv\<lparr>due_date := Some v\<rparr>"
| "set_field iv (Set_text Purchase_order_number v) = iv\<lparr>purchase_order_number := Some v\<rparr>"
| "set_field iv (Set_amount Subtotal v) = iv\<lparr>subtotal := Some v\<rparr>"
| "set_field iv (Set_amount Tax_amount v) = iv\<lparr>tax_amount := Some v\<rparr>"
| "set_field iv (Set_amount Total_amount v) = iv\<lparr>total_amount := Some v\<rparr>"

text \<open>Reading a field by name, for stating what an edit leaves alone.\<close>

fun text_of :: "invoice \<Rightarrow> text_field \<Rightarrow> string option" where
  "text_of iv Vendor_name = vendor_name iv"
| "text_of iv Vendor_address = vendor_address iv"
| "text_of iv Vendor_email = vendor_email iv"
| "text_of iv Vendor_phone = vendor_phone iv"
| "text_of iv Invoice_number = invoice_number iv"
| "text_of iv Invoice_date = invoice_date iv"
| "text_of iv Due_date = due_date iv"
| "text_of iv Purchase_order_number = purchase_order_number iv"

fun amount_of :: "invoice \<Rightarrow> amount_field \<Rightarrow> real option" where
  "amount_of iv Subtotal = subtotal iv"
| "amount_of iv Tax_amount = tax_amount iv"
| "amount_of iv Total_amount = total_amount iv"

text \<open>
  \<^verbatim>\<open>updated[index] = {...updated[index], [field]: value}\<close>. Spreading
  \<^verbatim>\<open>undefined\<close> gives no property, so an index equal to the length appends a
  record holding the one field; a larger index would leave holes.
\<close>

definition updateInvoice :: "ledger \<Rightarrow> nat \<Rightarrow> invoice_edit \<Rightarrow> ledger_error + ledger" where
  "updateInvoice led index e =
     (if index < length led then Inr (led[index := set_field (led ! index) e])
      else if index = length led then Inr (led @ [set_field empty_invoice e])
      else Inl SparseArray)"

subsection \<open>updateLineItem, addLineItem, deleteLineItem and the tax input\<close>

datatype item_edit = Description string | Quantity real | Unit_price real | Line_total real

definition empty_item :: line_item where
  "empty_item = \<lparr>description = None, quantity = None, unit_price = None, line_total = None\<rparr>"

text \<open>\<^verbatim>\<open>{...item, [field]: value}\<close>\<close>

fun set_item_field :: "line_item \<Rightarrow> item_edit \<Rightarrow> line_item" where
  "set_item_field it (Description v) = it\<lparr>description := Some v\<rparr>"
| "set_item_field it (Quantity v) = it\<lparr>quantity := Some v\<rparr>"
| "set_item_field it (Unit_price v) = it\<lparr>unit_price := Some v\<rparr>"
| "set_item_field it (Line_total v) = it\<lparr>line_total := Some v\<rparr>"

text \<open>
  The auto-calculation of \<^verbatim>\<open>updateLineItem\<close>: it runs for the fields
  \<^verbatim>\<open>quantity\<close> and \<^verbatim>\<open>unit_price\<close> only, on the item that already holds
  the new value; the edited operand is the passed value, the other one is read
  from the item.
\<close>

fun auto_calculate :: "line_item \<Rightarrow> item_edit \<Rightarrow> line_item" where
  "auto_calculate it (Quantity v) =
     it\<lparr>line_total := Some (or_zero (Some v) * or_zero (unit_price it))\<rparr>"
| "auto_calculate it (Unit_price v) =
     it\<lparr>line_total := Some (or_zero (quantity it) * or_zero (Some v))\<rparr>"
| "auto_calculate it (Description v) = it"
| "auto_calculate it (Line_total v) = it"

definition updateLineItem ::
    "ledger \<Rightarrow> nat \<Rightarrow> nat \<Rightarrow> item_edit \<Rightarrow> ledger_error + ledger" where
  "updateLineItem led invoiceIndex itemIndex e =
     (if length led \<le> invoiceIndex then Inl TypeError
      else case line_items (led ! invoiceIndex) of
        None \<Rightarrow> Inl TypeError
      | Some items \<Rightarrow>
          if length items < itemIndex then Inl SparseArray
          else
            let old = (if itemIndex < length items then items ! itemIndex else empty_item);
                new = auto_calculate (set_item_field old e) e;
                updatedLineItems =
                  (if itemIndex < length items then items[itemIndex := new]
                   else items @ [new])
            in Inr (led[invoiceIndex := recalculate (led ! invoiceIndex) updatedLineItems]))"

definition newItem :: line_item where
  "newItem = \<lparr>description = Some ''New Item'', quantity = Some 1,
              unit_price = Some 0, line_total = Some 0\<rparr>"

definition addLineItem :: "ledger \<Rightarrow> nat \<Rightarrow> ledger_error + ledger" where
  "addLineItem led invoiceIndex =
     (if length led \<le> invoiceIndex then Inl TypeError
      else
        let items = (case line_items (led ! invoiceIndex) of None \<Rightarrow> [] | Some xs \<Rightarrow> xs)
        in Inr (led[invoiceIndex := recalculate (led ! invoiceIndex) (items @ [newItem])]))"

text \<open>\<^verbatim>\<open>items.filter((_, idx) => idx !== itemIndex)\<close>\<close>

definition remove_at :: "nat \<Rightarrow> 'a list \<Rightarrow> 'a list" where
  "remove_at itemIndex items =
     map snd (filter (\<lambda>(idx, _). idx \<noteq> itemIndex) (enumerate 0 items))"

definition deleteLineItem :: "ledger \<Rightarrow> nat \<Rightarrow> nat \<Rightarrow> ledger_error + ledger" where
  "deleteLineItem led invoiceIndex itemIndex =
     (if length led \<le> invoiceIndex then Inl TypeError
      else case line_items (led ! invoiceIndex) of
        None \<Rightarrow> Inl TypeError
      | Some items \<Rightarrow>
          Inr (led[invoiceIndex :=
                 recalculate (led ! invoiceIndex) (remove_at itemIndex items)]))"

text \<open>
  The handler of the tax input (\<^verbatim>\<open>onChange\<close> of the Tax field): it stores
  \<^verbatim>\<open>newTax\<close> and sets \<^verbatim>\<open>total_amount = (subtotal || 0) + newTax\<close>.
\<close>

definition onChangeTax :: "ledger \<Rightarrow> nat \<Rightarrow> real \<Rightarrow> ledger_error + ledger" where
  "onChangeTax led idx newTax =
     (if length led \<le> idx then Inl TypeError
      else Inr (led[idx := (led ! idx)\<lparr>tax_amount := Some newTax,
                  total_amount := Some (or_zero (subtotal (led ! idx)) + newTax)\<rparr>]))"

subsection \<open>The values shown by the edit form\<close>

text \<open>
  The \<^verbatim>\<open>value\<close> attributes of the inputs of a line item
  (\<^verbatim>\<open>item.description || ""\<close>, \<^verbatim>\<open>item.quantity || 0\<close>,
  \<^verbatim>\<open>item.unit_price || 0\<close>, \<^verbatim>\<open>item.line_total || 0\<close>) and of the three
  amount inputs of an invoice.
\<close>

definition line_item_inputs :: "line_item \<Rightarrow> string \<times> real \<times> real \<times> real" where
  "line_item_inputs item =
     (or_empty (description item), or_zero (quantity item), or_zero (unit_price item),
      or_zero (line_total item))"

definition amount_inputs :: "invoice \<Rightarrow> real \<times> real \<times> real" where
  "amount_inputs iv = (or_zero (subtotal iv), or_zero (tax_amount iv), or_zero (total_amount iv))"

section \<open>The CSV exporter\<close>

definition newline :: string where
  "newline = [CHR 0x0A]"

text \<open>A text cell of the template literals: the value between two double quotes.\<close>

definition quoted :: "string \<Rightarrow> string" where
  "quoted s = [CHR 0x22] @ s @ [CHR 0x22]"

definition header :: string where
  "header =
     ''Vendor,Invoice Number,Invoice Date,Due Date,PO Number,Description,Quantity,Unit Price,Line Total,Subtotal,Tax,Total''
       @ newline"

text \<open>
  The five invoice cells that open every data row, each followed by its comma.
\<close>

definition invoice_columns :: "invoice \<Rightarrow> string" where
  "invoice_columns iv =
     quoted (or_empty (vendor_name iv)) @ '','' @
     quoted (or_empty (invoice_number iv)) @ '','' @
     quoted (or_empty (invoice_date iv)) @ '','' @
     quoted (or_empty (due_date iv)) @ '','' @
     quoted (or_empty (purchase_order_number iv)) @ '',''"

text \<open>
  The three totals cells. \<open>toStr\<close> is the conversion of a number to text that
  a template literal applies (\<^verbatim>\<open>Number.prototype.toString\<close>), a parameter
  of the exporter.
\<close>

definition totals_columns :: "(real \<Rightarrow> string) \<Rightarrow> invoice \<Rightarrow> string" where
  "totals_columns toStr iv =
     toStr (or_zero (subtotal iv)) @ '','' @
     toStr (or_zero (tax_amount iv)) @ '','' @
     toStr (or_zero (total_amount iv))"

text \<open>The callback of the inner \<^verbatim>\<open>forEach\<close>: what one line item appends.\<close>

definition item_row :: "(real \<Rightarrow> string) \<Rightarrow> invoice \<Rightarrow> nat \<Rightarrow> line_item \<Rightarrow> string" where
  "item_row toStr iv index item =
     invoice_columns iv @
     quoted (or_empty (description item)) @ '','' @
     toStr (or_zero (quantity item)) @ '','' @
     toStr (or_zero (unit_price item)) @ '','' @
     toStr (or_zero (line_total item)) @ '','' @
     (if index = 0 then totals_columns toStr iv else '',,'') @
     newline"

text \<open>The branch for an invoice with no line items.\<close>

definition placeholder_row :: "(real \<Rightarrow> string) \<Rightarrow> invoice \<Rightarrow> string" where
  "placeholder_row toStr iv =
     invoice_columns iv @
     quoted ''No line items'' @ '',,,,'' @
     totals_columns toStr iv @ newline"

text \<open>
  The callback of the outer \<^verbatim>\<open>forEach\<close>, with \<^verbatim>\<open>csv\<close> passed through.
  The test \<^verbatim>\<open>invoice.line_items && invoice.line_items.length > 0\<close> sends an
  absent and an empty item array to the placeholder branch.
\<close>

definition export_invoice :: "(real \<Rightarrow> string) \<Rightarrow> string \<Rightarrow> invoice \<Rightarrow> string" where
  "export_invoice toStr csv iv =
     (case line_items iv of
        None \<Rightarrow> csv @ placeholder_row toStr iv
      | Some items \<Rightarrow>
          if 0 < length items
          then foldl (\<lambda>csv (index, item). csv @ item_row toStr iv index item)
                 csv (enumerate 0 items)
          else csv @ placeholder_row toStr iv)"

text \<open>
  The rows the callback appends for one invoice, one text per row: the item
  rows in item order, or the one row of the other branch.
\<close>

definition data_rows :: "(real \<Rightarrow> string) \<Rightarrow> invoice \<Rightarrow> string list" where
  "data_rows toStr iv =
     (case line_items iv of
        None \<Rightarrow> [placeholder_row toStr iv]
      | Some items \<Rightarrow>
          if 0 < length items
          then map (\<lambda>(index, item). item_row toStr iv index item) (enumerate 0 items)
          else [placeholder_row toStr iv])"

text \<open>
  \<^verbatim>\<open>exportToCSV\<close> returns without a file on an empty ledger (\<open>None\<close>);
  otherwise the result is the text handed to the download.
\<close>

definition exportToCSV :: "(real \<Rightarrow> string) \<Rightarrow> ledger \<Rightarrow> string option" where
  "exportToCSV toStr led =
     (if length led = 0 then None
      else Some (foldl (export_invoice toStr) header led))"

subsection \<open>The table the exporter is meant to write\<close>

text \<open>
  The export described as a table: a list of rows, each a list of twelve cells,
  written with commas between the cells and a newline after each row.
\<close>

fun join_cells :: "string list \<Rightarrow> string" where
  "join_cells [] = []"
| "join_cells [c] = c"
| "join_cells (c # cs) = c @ '','' @ join_cells cs"

definition csv_line :: "string list \<Rightarrow> string" where
  "csv_line cells = join_cells cells @ newline"

definition header_cells :: "string list" where
  "header_cells =
     [''Vendor'', ''Invoice Number'', ''Invoice Date'', ''Due Date'', ''PO Number'',
      ''Description'', ''Quantity'', ''Unit Price'', ''Line Total'',
      ''Subtotal'', ''Tax'', ''Total'']"

definition invoice_cells :: "invoice \<Rightarrow> string list" where
  "invoice_cells iv =
     [quoted (or_empty (vendor_name iv)), quoted (or_empty (invoice_number iv)),
      quoted (or_empty (invoice_date iv)), quoted (or_empty (due_date iv)),
      quoted (or_empty (purchase_order_number iv))]"

definition totals_cells :: "(real \<Rightarrow> string) \<Rightarrow> invoice \<Rightarrow> string list" where
  "totals_cells toStr iv =
     [toStr (or_zero (subtotal iv)), toStr (or_zero (tax_amount iv)),
      toStr (or_zero (total_amount iv))]"

definition item_cells :: "(real \<Rightarrow> string) \<Rightarrow> line_item \<Rightarrow> string list" where
  "item_cells toStr item =
     [quoted (or_empty (description item)), toStr (or_zero (quantity item)),
      toStr (or_zero (unit_price item)), toStr (or_zero (line_total item))]"

definition table_rows :: "(real \<Rightarrow> string) \<Rightarrow> invoice \<Rightarrow> string list list" where
  "table_rows toStr iv =
     (case line_items iv of
        None \<Rightarrow> [invoice_cells iv @ [quoted ''No line items'', [], [], []] @ totals_cells toStr iv]
      | Some [] \<Rightarrow> [invoice_cells iv @ [quoted ''No line items'', [], [], []] @ totals_cells toStr iv]
      | Some items \<Rightarrow>
          map (\<lambda>(k, item). invoice_cells iv @ item_cells toStr item @
                 (if k = 0 then totals_cells toStr iv else [[], [], []]))
            (enumerate 0 items))"

text \<open>
  The quoting of a text cell in standard CSV (RFC 4180): the value between
  double quotes, with every double quote inside it doubled.
\<close>

definition rfc4180_quoted :: "string \<Rightarrow> string" where
  "rfc4180_quoted s =
     [CHR 0x22] @ concat (map (\<lambda>c. if c = CHR 0x22 then [c, c] else [c]) s) @ [CHR 0x22]"

text \<open>
  The text values of the two kinds of data row, and each row as standard CSV
  writes it: the same cells, with the text cells quoted by
  \<open>rfc4180_quoted\<close>.
\<close>

definition text_values :: "invoice \<Rightarrow> line_item \<Rightarrow> string list" where
  "text_values iv item =
     [or_empty (vendor_name iv), or_empty (invoice_number iv), or_empty (invoice_date iv),
      or_empty (due_date iv), or_empty (purchase_order_number iv), or_empty (description item)]"

definition standard_item_row :: "(real \<Rightarrow> string) \<Rightarrow> invoice \<Rightarrow> nat \<Rightarrow> line_item \<Rightarrow> string" where
  "standard_item_row toStr iv index item =
     csv_line (map rfc4180_quoted (text_values iv item) @
       [toStr (or_zero (quantity item)), toStr (or_zero (unit_price item)),
        toStr (or_zero (line_total item))] @
       (if index = 0 then totals_cells toStr iv else [[], [], []]))"

definition invoice_text_values :: "invoice \<Rightarrow> string list" where
  "invoice_text_values iv =
     [or_empty (vendor_name iv), or_empty (invoice_number iv), or_empty (invoice_date iv),
      or_empty (due_date iv), or_empty (purchase_order_number iv)]"

definition standard_placeholder_row :: "(real \<Rightarrow> string) \<Rightarrow> invoice \<Rightarrow> string" where
  "standard_placeholder_row toStr iv =
     csv_line (map rfc4180_quoted (invoice_text_values iv) @
       [rfc4180_quoted ''No line items'', [], [], []] @ totals_cells toStr iv)"

text \<open>
  A conversion of whole numbers to decimal text, as \<^verbatim>\<open>toString\<close> prints
  them below \<open>10\<^sup>2\<^sup>1\<close>; it instantiates \<open>toStr\<close> in the examples.
\<close>

fun string_of_nat :: "nat \<Rightarrow> string" where
  "string_of_nat n =
     (if n < 10 then [char_of (48 + n)]
      else string_of_nat (n div 10) @ [char_of (48 + n mod 10)])"

definition whole_toString :: "real \<Rightarrow> string" where
  "whole_toString x = (if x < 0 then ''-'' else []) @ string_of_nat (nat \<lfloor>\<bar>x\<bar>\<rfloor>)"

declare string_of_nat.simps [simp del]

section \<open>The reply normalizer of the extraction route\<close>

text \<open>
  The payload of a reply is untyped, so this part works on JavaScript values.
  An object is the list of its properties in insertion order.
\<close>

datatype jsval =
  JUndefined | JNull | JBool bool | JNum real | JStr string
  | JArr "jsval list" | JObj "(string \<times> jsval) list"

text \<open>
  \<open>NoStructuredPayload\<close>: the reply has no match for the brace pattern
  (answered with "Failed to extract structured data from invoice").
  \<open>MalformedPayload\<close>: \<^verbatim>\<open>JSON.parse\<close> throws on the match (answered with
  "Failed to parse extracted data"). \<open>ProcessingError\<close>: a later statement
  throws and the outer \<^verbatim>\<open>catch\<close> answers "Failed to process invoice".
\<close>

datatype norm_error = NoStructuredPayload | MalformedPayload | ProcessingError

text \<open>
  \<^verbatim>\<open>responseText.match(/\{[\s\S]*\}/)\<close>: the leftmost match starts at the first
  opening brace and, the star being greedy, ends at the last closing brace
  after it; there is no match when no closing brace follows an opening one.
\<close>

definition match_json :: "string \<Rightarrow> string option" where
  "match_json responseText =
     (let from_open = dropWhile (\<lambda>c. c \<noteq> CHR ''{'') responseText;
          candidate = rev (dropWhile (\<lambda>c. c \<noteq> CHR ''}'') (rev from_open))
      in if candidate = [] then None else Some candidate)"

text \<open>
  \<^verbatim>\<open>str.replace(/<[^>]*>/g, "")\<close>: at an opening angle bracket that is followed
  by a closing one, the text through the next closing bracket is dropped and
  the scan goes on behind it; any other character is kept.
\<close>

function strip_tags :: "string \<Rightarrow> string" where
  "strip_tags [] = []"
| "strip_tags (c # cs) =
     (if c = CHR ''<'' \<and> CHR ''>'' \<in> set cs
      then strip_tags (tl (dropWhile (\<lambda>d. d \<noteq> CHR ''>'') cs))
      else c # strip_tags cs)"
  by pat_completeness auto
termination
proof (relation "measure length")
  show "wf (measure length)" by simp
next
  fix c :: char and cs :: string
  have "length (tl (dropWhile (\<lambda>d. d \<noteq> CHR ''>'') cs)) \<le> length cs"
    using length_dropWhile_le [of "\<lambda>d. d \<noteq> CHR ''>''" cs] by simp
  then show "(tl (dropWhile (\<lambda>d. d \<noteq> CHR ''>'') cs), c # cs) \<in> measure length"
    by simp
next
  fix c :: char and cs :: string
  show "(cs, c # cs) \<in> measure length" by simp
qed

text \<open>
  The white space and line terminators \<^verbatim>\<open>String.prototype.trim\<close> removes,
  among the code units below 256: tab, line feed, vertical tab, form feed,
  carriage return, space and no-break space (U+00A0). The others it removes
  (U+FEFF, U+1680, U+2000 to U+200A, U+2028, U+2029, U+202F, U+205F, U+3000)
  lie above 255.
\<close>

definition is_space :: "char \<Rightarrow> bool" where
  "is_space c =
     (c \<in> set [CHR 0x09, CHR 0x0A, CHR 0x0B, CHR 0x0C, CHR 0x0D, CHR 0x20, CHR 0xA0])"

definition trim :: "string \<Rightarrow> string" where
  "trim s = rev (dropWhile is_space (rev (dropWhile is_space s)))"

text \<open>The local function \<^verbatim>\<open>sanitize\<close>.\<close>

fun sanitize :: "jsval \<Rightarrow> jsval" where
  "sanitize (JStr str) = JStr (trim (strip_tags str))"
| "sanitize v = v"

fun is_string :: "jsval \<Rightarrow> bool" where
  "is_string (JStr s) = True"
| "is_string v = False"

text \<open>
  The loop over \<^verbatim>\<open>Object.keys(extractedData)\<close>: a property whose value is a
  string is replaced by its sanitized value.
\<close>

definition sanitize_fields :: "(string \<times> jsval) list \<Rightarrow> (string \<times> jsval) list" where
  "sanitize_fields props =
     map (\<lambda>(key, v). (key, if is_string v then sanitize v else v)) props"

text \<open>
  Reading a named property \<^verbatim>\<open>v.key\<close>, for the names used here
  (\<^verbatim>\<open>description\<close>, \<^verbatim>\<open>data\<close>, \<^verbatim>\<open>line_items\<close>), which no array, string,
  number or boolean carries: on \<^verbatim>\<open>null\<close> and \<^verbatim>\<open>undefined\<close> it throws.
\<close>

fun get_prop :: "jsval \<Rightarrow> string \<Rightarrow> jsval option" where
  "get_prop JUndefined key = None"
| "get_prop JNull key = None"
| "get_prop (JObj props) key =
     (case map_of props key of None \<Rightarrow> Some JUndefined | Some v \<Rightarrow> Some v)"
| "get_prop v key = Some JUndefined"

text \<open>
  The own enumerable properties an object spread \<^verbatim>\<open>{...v}\<close> copies: those of
  an object, the indexed elements of an array or a string, none otherwise.
\<close>

fun spread :: "jsval \<Rightarrow> (string \<times> jsval) list" where
  "spread (JObj props) = props"
| "spread (JArr vs) = zip (map string_of_nat [0..<length vs]) vs"
| "spread (JStr s) = zip (map string_of_nat [0..<length s]) (map (\<lambda>c. JStr [c]) s)"
| "spread v = []"

text \<open>
  \<^verbatim>\<open>{...item, description: sanitize(item.description)}\<close>; \<open>None\<close> when
  reading the description throws.
\<close>

definition sanitize_item :: "jsval \<Rightarrow> jsval option" where
  "sanitize_item item =
     (case get_prop item ''description'' of
        None \<Rightarrow> None
      | Some d \<Rightarrow> Some (JObj (AList.update ''description'' (sanitize d) (spread item))))"

text \<open>\<^verbatim>\<open>line_items.map(...)\<close>: the first item that throws ends the mapping.\<close>

fun sanitize_items :: "jsval list \<Rightarrow> jsval list option" where
  "sanitize_items [] = Some []"
| "sanitize_items (item # items) =
     (case sanitize_item item of
        None \<Rightarrow> None
      | Some item' \<Rightarrow>
          (case sanitize_items items of None \<Rightarrow> None | Some items' \<Rightarrow> Some (item' # items')))"

text \<open>
  The two sanitizing passes over the parsed payload. The second one runs when
  \<^verbatim>\<open>Array.isArray(extractedData.line_items)\<close>.
\<close>

definition sanitize_data :: "(string \<times> jsval) list \<Rightarrow> norm_error + (string \<times> jsval) list" where
  "sanitize_data extractedData =
     (let props = sanitize_fields extractedData
      in case map_of props ''line_items'' of
           Some (JArr items) \<Rightarrow>
             (case sanitize_items items of
                None \<Rightarrow> Inl ProcessingError
              | Some items' \<Rightarrow> Inr (AList.update ''line_items'' (JArr items') props))
         | _ \<Rightarrow> Inr props)"

text \<open>
  From the reply text to the sanitized payload. \<open>parse\<close> stands for
  \<^verbatim>\<open>JSON.parse\<close>, with \<open>None\<close> for a thrown syntax error; it is applied to a
  text that starts with an opening brace, on which a successful parse is an
  object, so its result is a property list.
\<close>

definition normalize_reply ::
    "(string \<Rightarrow> (string \<times> jsval) list option) \<Rightarrow> string \<Rightarrow> norm_error + (string \<times> jsval) list" where
  "normalize_reply parse responseText =
     (case match_json responseText of
        None \<Rightarrow> Inl NoStructuredPayload
      | Some candidate \<Rightarrow>
          (case parse candidate of
             None \<Rightarrow> Inl MalformedPayload
           | Some extractedData \<Rightarrow> sanitize_data extractedData))"

text \<open>
  The status of the answer: 500 on each of the three failures, and the default
  200 of \<^verbatim>\<open>NextResponse.json\<close> on success. \<^verbatim>\<open>response.ok\<close> of the client is
  true for the statuses 200 to 299.
\<close>

fun response_status :: "norm_error + (string \<times> jsval) list \<Rightarrow> nat" where
  "response_status (Inl e) = 500"
| "response_status (Inr extractedData) = 200"

definition response_ok :: "nat \<Rightarrow> bool" where
  "response_ok status = (200 \<le> status \<and> status \<le> 299)"

section \<open>The batch loop of handleSubmit\<close>

record upload =
  name :: string
  media_type :: string
  byte_size :: nat

text \<open>
  What the two awaits of one iteration give: \<open>Rejected\<close> when \<^verbatim>\<open>fetch\<close> or
  \<^verbatim>\<open>response.json()\<close> rejects, else \<^verbatim>\<open>response.ok\<close> and the parsed body.
\<close>

datatype fetch_outcome = Rejected | Response bool jsval

text \<open>
  The \<^verbatim>\<open>try\<close> block after the awaits: \<open>None\<close> is the \<^verbatim>\<open>catch\<close> branch,
  \<open>Some\<close> holds the record pushed to \<^verbatim>\<open>results\<close>,
  \<^verbatim>\<open>{...result.data, _filename: file.name}\<close>.
\<close>

fun process_response :: "string \<Rightarrow> fetch_outcome \<Rightarrow> jsval option" where
  "process_response file_name Rejected = None"
| "process_response file_name (Response ok result) =
     (if \<not> ok then None
      else case get_prop result ''data'' of
             None \<Rightarrow> None
           | Some d \<Rightarrow> Some (JObj (AList.update ''_filename'' (JStr file_name) (spread d))))"

text \<open>
  The \<^verbatim>\<open>for\<close> loop. The extraction service is a function of a state \<open>w\<close>
  (the rate-limit counters and whatever else the answer depends on) and the
  file, returning the outcome and the next state.
\<close>

fun process_files ::
    "('w \<Rightarrow> upload \<Rightarrow> fetch_outcome \<times> 'w) \<Rightarrow> 'w \<Rightarrow> upload list \<Rightarrow> jsval list \<Rightarrow> string list
       \<Rightarrow> jsval list \<times> string list" where
  "process_files fetch w [] results failedFiles = (results, failedFiles)"
| "process_files fetch w (f # fs) results failedFiles =
     (case fetch w f of
        (outcome, w') \<Rightarrow>
          (case process_response (name f) outcome of
             Some r \<Rightarrow> process_files fetch w' fs (results @ [r]) failedFiles
           | None \<Rightarrow> process_files fetch w' fs results (failedFiles @ [name f])))"

text \<open>
  \<^verbatim>\<open>handleSubmit\<close> returns at once on an empty selection (\<open>None\<close>); otherwise
  it ends with \<^verbatim>\<open>results\<close> stored as the ledger and \<^verbatim>\<open>failedFiles\<close> shown.
\<close>

definition handleSubmit ::
    "('w \<Rightarrow> upload \<Rightarrow> fetch_outcome \<times> 'w) \<Rightarrow> 'w \<Rightarrow> upload list \<Rightarrow> (jsval list \<times> string list) option" where
  "handleSubmit fetch w files =
     (if length files = 0 then None else Some (process_files fetch w files [] []))"

subsection \<open>The batch as a list of per-document outcomes\<close>

text \<open>The outcome of each document, in input order.\<close>

fun outcomes :: "('w \<Rightarrow> upload \<Rightarrow> fetch_outcome \<times> 'w) \<Rightarrow> 'w \<Rightarrow> upload list \<Rightarrow> fetch_outcome list" where
  "outcomes fetch w [] = []"
| "outcomes fetch w (f # fs) = (case fetch w f of (outcome, w') \<Rightarrow> outcome # outcomes fetch w' fs)"

definition document_results ::
    "('w \<Rightarrow> upload \<Rightarrow> fetch_outcome \<times> 'w) \<Rightarrow> 'w \<Rightarrow> upload list \<Rightarrow> (upload \<times> jsval option) list" where
  "document_results fetch w files =
     map (\<lambda>(f, outcome). (f, process_response (name f) outcome))
       (zip files (outcomes fetch w files))"

definition successes :: "(upload \<times> jsval option) list \<Rightarrow> jsval list" where
  "successes rs = concat (map (\<lambda>(f, r). case r of None \<Rightarrow> [] | Some v \<Rightarrow> [v]) rs)"

definition failures :: "(upload \<times> jsval option) list \<Rightarrow> string list" where
  "failures rs = concat (map (\<lambda>(f, r). case r of None \<Rightarrow> [name f] | Some v \<Rightarrow> []) rs)"

section \<open>Notions used by the statements\<close>

subsection \<open>The totals of an invoice\<close>

text \<open>
  The subtotal is the sum of the line totals, and the total is the subtotal
  plus the tax; an absent number counts as 0, as in the source.
\<close>

definition subtotal_is_sum :: "invoice \<Rightarrow> bool" where
  "subtotal_is_sum iv =
     (subtotal iv = Some (sum_list (map (\<lambda>item. or_zero (line_total item))
        (case line_items iv of None \<Rightarrow> [] | Some items \<Rightarrow> items))))"

definition total_is_sum :: "invoice \<Rightarrow> bool" where
  "total_is_sum iv = (total_amount iv = Some (or_zero (subtotal iv) + or_zero (tax_amount iv)))"

subsection \<open>An invoice for the examples\<close>

definition example_item :: line_item where
  "example_item = \<lparr>description = Some ''Widget'', quantity = Some 2,
                    unit_price = Some 10, line_total = Some 20\<rparr>"

definition example_invoice :: invoice where
  "example_invoice =
     empty_invoice\<lparr>vendor_name := Some ''Acme'', invoice_number := Some ''INV-1'',
       subtotal := Some 20, tax_amount := Some 2, total_amount := Some 22,
       line_items := Some [example_item]\<rparr>"

subsection \<open>Markup tags\<close>

text \<open>
  A text has a tag when a closing angle bracket follows its first opening one,
  that is, when some opening bracket is followed by a closing one.
\<close>

definition has_tag :: "string \<Rightarrow> bool" where
  "has_tag s = (CHR ''>'' \<in> set (dropWhile (\<lambda>c. c \<noteq> CHR ''<'') s))"

subsection \<open>Ledgers for the examples\<close>

definition second_item :: line_item where
  "second_item = \<lparr>description = Some ''Gadget'', quantity = Some 1,
                   unit_price = Some 5, line_total = Some 5\<rparr>"

definition two_item_invoice :: invoice where
  "two_item_invoice =
     example_invoice\<lparr>subtotal := Some 25, total_amount := Some 27,
       line_items := Some [example_item, second_item]\<rparr>"

definition bare_invoice :: invoice where
  "bare_invoice = example_invoice\<lparr>invoice_number := Some ''INV-2'', line_items := Some []\<rparr>"

definition punctuated_invoice :: invoice where
  "punctuated_invoice =
     example_invoice\<lparr>vendor_name := Some ''Acme, Inc'',
       vendor_address := Some (''1 Main St'' @ [CHR 0x0A] @ ''Springfield''),
       purchase_order_number := Some (''PO'' @ [CHR 0x0A] @ ''7'')\<rparr>"

definition nicknamed_invoice :: invoice where
  "nicknamed_invoice = example_invoice\<lparr>vendor_name := Some (''Acme '' @ quoted ''Best'')\<rparr>"

definition nicknamed_bare_invoice :: invoice where
  "nicknamed_bare_invoice = nicknamed_invoice\<lparr>line_items := Some []\<rparr>"

definition unknown_quantity_item :: line_item where
  "unknown_quantity_item = example_item\<lparr>quantity := None\<rparr>"

definition unknown_quantity_invoice :: invoice where
  "unknown_quantity_invoice = example_invoice\<lparr>line_items := Some [unknown_quantity_item]\<rparr>"

subsection \<open>Replies for the examples\<close>

text \<open>
  A reply with prose around a payload, a payload whose item array holds
  \<^verbatim>\<open>null\<close>, and a text with braces that is not JSON. \<open>example_parse\<close>
  gives what \<^verbatim>\<open>JSON.parse\<close> gives on the first two texts and fails elsewhere.
\<close>

definition example_payload_text :: string where
  "example_payload_text =
     ''{'' @ quoted ''vendor_name'' @ '':'' @ quoted ''Acme'' @ '','' @
       quoted ''invoice_number'' @ '':'' @ quoted ''<b>INV-1</b>'' @ '','' @
       quoted ''subtotal'' @ '':null,'' @
       quoted ''line_items'' @ '':[{'' @
         quoted ''description'' @ '':'' @ quoted '' <i>Widget</i> '' @ '','' @
         quoted ''unit_price'' @ '':10}]}''"

definition example_payload :: "(string \<times> jsval) list" where
  "example_payload =
     [(''vendor_name'', JStr ''Acme''),
      (''invoice_number'', JStr ''<b>INV-1</b>''),
      (''subtotal'', JNull),
      (''line_items'',
         JArr [JObj [(''description'', JStr '' <i>Widget</i> ''), (''unit_price'', JNum 10)]])]"

definition example_normalized :: "(string \<times> jsval) list" where
  "example_normalized =
     [(''vendor_name'', JStr ''Acme''),
      (''invoice_number'', JStr ''INV-1''),
      (''subtotal'', JNull),
      (''line_items'',
         JArr [JObj [(''description'', JStr ''Widget''), (''unit_price'', JNum 10)]])]"

definition null_items_text :: string where
  "null_items_text = ''{'' @ quoted ''line_items'' @ '':[null]}''"

definition malformed_text :: string where
  "malformed_text = ''{'' @ quoted ''a'' @ '':}''"

definition example_parse :: "string \<Rightarrow> (string \<times> jsval) list option" where
  "example_parse text =
     (if text = example_payload_text then Some example_payload
      else if text = null_items_text then Some [(''line_items'', JArr [JNull])]
      else None)"

definition example_reply :: string where
  "example_reply = ''Here is the data: '' @ example_payload_text @ '' Done.''"

subsection \<open>A batch for the examples\<close>

text \<open>
  Three documents and a service that fails its second call, whatever the
  document.
\<close>

definition example_files :: "upload list" where
  "example_files =
     [\<lparr>name = ''a.pdf'', media_type = ''application/pdf'', byte_size = 1000\<rparr>,
      \<lparr>name = ''b.pdf'', media_type = ''application/pdf'', byte_size = 2000\<rparr>,
      \<lparr>name = ''c.pdf'', media_type = ''application/pdf'', byte_size = 3000\<rparr>]"

definition example_fetch :: "nat \<Rightarrow> upload \<Rightarrow> fetch_outcome \<times> nat" where
  "example_fetch w f =
     (if w = 1 then Rejected
      else Response True
             (JObj [(''success'', JBool True),
                    (''data'', JObj [(''vendor_name'', JStr ''Acme'')])]),
      Suc w)"

section \<open>Properties of the ledger\<close>

lemma sum_line_totals_foldl:
  "foldl (\<lambda>sum item. sum + or_zero (line_total item)) a items =
     a + sum_list (map (\<lambda>item. or_zero (line_total item)) items)"
  by (induction items arbitrary: a) (simp_all add: add.assoc)

lemma sum_line_totals_sum_list:
  "sum_line_totals items = sum_list (map (\<lambda>item. or_zero (line_total item)) items)"
  by (simp add: sum_line_totals_def sum_line_totals_foldl)

lemma recalculate_simps:
  "line_items (recalculate iv items) = Some items"
  "subtotal (recalculate iv items) = Some (sum_line_totals items)"
  "total_amount (recalculate iv items) = Some (sum_line_totals items + or_zero (tax_amount iv))"
  "tax_amount (recalculate iv items) = tax_amount iv"
  by (simp_all add: recalculate_def Let_def)

lemma recalculate_consistent:
  "subtotal_is_sum (recalculate iv items)" "total_is_sum (recalculate iv items)"
  by (simp_all add: subtotal_is_sum_def total_is_sum_def recalculate_def Let_def
        sum_line_totals_sum_list)

lemma remove_at_out_of_range:
  assumes "length items \<le> itemIndex"
  shows "remove_at itemIndex items = items"
proof -
  have "filter (\<lambda>(idx, _). idx \<noteq> itemIndex) (enumerate 0 items) = enumerate 0 items"
    using assms by (auto simp: filter_id_conv in_set_enumerate_eq)
  then show ?thesis by (simp add: remove_at_def)
qed

lemma remove_at_offset_out:
  assumes "\<forall>p \<in> set ps. fst p \<noteq> k"
  shows "filter (\<lambda>(idx, _). idx \<noteq> k) ps = ps"
  using assms by (auto simp: filter_id_conv)

lemma remove_at_offset:
  "itemIndex < length items \<Longrightarrow>
     map snd (filter (\<lambda>(idx, _). idx \<noteq> n + itemIndex) (enumerate n items)) =
       take itemIndex items @ drop (Suc itemIndex) items"
proof (induction items arbitrary: n itemIndex)
  case Nil
  then show ?case by simp
next
  case (Cons x xs)
  show ?case
  proof (cases itemIndex)
    case 0
    have "filter (\<lambda>(idx, _). idx \<noteq> n) (enumerate (Suc n) xs) = enumerate (Suc n) xs"
      by (rule remove_at_offset_out) (auto simp: in_set_enumerate_eq)
    with 0 show ?thesis by simp
  next
    case (Suc j)
    with Cons.prems have "j < length xs" by simp
    from Cons.IH [OF this, of "Suc n"] Suc show ?thesis by simp
  qed
qed

lemma remove_at_valid:
  "itemIndex < length items \<Longrightarrow>
     remove_at itemIndex items = take itemIndex items @ drop (Suc itemIndex) items"
  using remove_at_offset [of itemIndex items 0] by (simp add: remove_at_def)

lemma set_field_text:
  "text_of (set_field iv (Set_text f v)) g = (if g = f then Some v else text_of iv g)"
  by (cases f; cases g; simp)

lemma set_field_text_amount:
  "amount_of (set_field iv (Set_text f v)) a = amount_of iv a"
  by (cases f; cases a; simp)

lemma set_field_amount:
  "amount_of (set_field iv (Set_amount a v)) b = (if b = a then Some v else amount_of iv b)"
  by (cases a; cases b; simp)

lemma set_field_amount_text:
  "text_of (set_field iv (Set_amount a v)) g = text_of iv g"
  by (cases a; cases g; simp)

lemma set_field_rest:
  "line_items (set_field iv e) = line_items iv"
  "filename (set_field iv e) = filename iv"
  by (cases "(iv, e)" rule: set_field.cases; simp)+

lemma invoice_totals_eq:
  "(iv\<lparr>subtotal := a, total_amount := b\<rparr> = iv) = (subtotal iv = a \<and> total_amount iv = b)"
  by (cases iv) auto

lemma updateLineItem_totals:
  assumes "invoiceIndex < length led"
    and "line_items (led ! invoiceIndex) = Some items"
    and "itemIndex \<le> length items"
  shows "\<exists>led'. updateLineItem led invoiceIndex itemIndex e = Inr led' \<and>
           subtotal_is_sum (led' ! invoiceIndex) \<and> total_is_sum (led' ! invoiceIndex)"
  using assms by (simp add: updateLineItem_def Let_def recalculate_consistent)

lemma addLineItem_totals:
  assumes "invoiceIndex < length led"
  shows "\<exists>led'. addLineItem led invoiceIndex = Inr led' \<and>
           subtotal_is_sum (led' ! invoiceIndex) \<and> total_is_sum (led' ! invoiceIndex)"
  using assms by (simp add: addLineItem_def Let_def recalculate_consistent)

lemma deleteLineItem_totals:
  assumes "invoiceIndex < length led"
    and "line_items (led ! invoiceIndex) = Some items"
  shows "\<exists>led'. deleteLineItem led invoiceIndex itemIndex = Inr led' \<and>
           subtotal_is_sum (led' ! invoiceIndex) \<and> total_is_sum (led' ! invoiceIndex)"
  using assms by (simp add: deleteLineItem_def recalculate_consistent)

lemma onChangeTax_totals:
  assumes "idx < length led"
  shows "\<exists>led'. onChangeTax led idx newTax = Inr led' \<and>
           total_is_sum (led' ! idx) \<and>
           tax_amount (led' ! idx) = Some newTax \<and>
           subtotal (led' ! idx) = subtotal (led ! idx) \<and>
           line_items (led' ! idx) = line_items (led ! idx)"
  using assms by (simp add: onChangeTax_def total_is_sum_def)

subsection \<open>Editing a line item\<close>

text \<open>
  Claim C2. On a valid invoice index and item index, \<^verbatim>\<open>updateLineItem\<close> with
  the field quantity or unit_price stores the value and sets the item's
  line_total to the product of the new value and the other operand (an absent
  operand counting as 0); with the field line_total it stores the value and
  leaves quantity and unit_price as they were. The other items are unchanged.
\<close>

theorem updateLineItem_line_total:
  assumes "invoiceIndex < length led"
    and "line_items (led ! invoiceIndex) = Some items"
    and "itemIndex < length items"
  shows "(\<exists>led'. updateLineItem led invoiceIndex itemIndex (Quantity v) = Inr led' \<and>
            line_items (led' ! invoiceIndex) =
              Some (items[itemIndex := (items ! itemIndex)
                \<lparr>quantity := Some v,
                 line_total := Some (v * or_zero (unit_price (items ! itemIndex)))\<rparr>])) \<and>
         (\<exists>led'. updateLineItem led invoiceIndex itemIndex (Unit_price v) = Inr led' \<and>
            line_items (led' ! invoiceIndex) =
              Some (items[itemIndex := (items ! itemIndex)
                \<lparr>unit_price := Some v,
                 line_total := Some (or_zero (quantity (items ! itemIndex)) * v)\<rparr>])) \<and>
         (\<exists>led'. updateLineItem led invoiceIndex itemIndex (Line_total v) = Inr led' \<and>
            line_items (led' ! invoiceIndex) =
              Some (items[itemIndex := (items ! itemIndex)\<lparr>line_total := Some v\<rparr>]))"
  using assms by (simp add: updateLineItem_def Let_def recalculate_simps)

text \<open>Quantity 3 on an item with unit price 10 gives the line total 30.\<close>

theorem updateLineItem_line_total_witness:
  "(0::nat) < length [example_invoice] \<and>
   line_items ([example_invoice] ! 0) = Some [example_item] \<and>
   (0::nat) < length [example_item] \<and>
   unit_price example_item = Some 10 \<and>
   (\<exists>led'. updateLineItem [example_invoice] 0 0 (Quantity 3) = Inr led' \<and>
      line_items (led' ! 0) =
        Some [example_item\<lparr>quantity := Some 3, line_total := Some 30\<rparr>])"
proof -
  have h: "(0::nat) < length [example_invoice]" by simp
  have l: "line_items ([example_invoice] ! 0) = Some [example_item]"
    by (simp add: example_invoice_def)
  have i: "(0::nat) < length [example_item]" by simp
  have p: "unit_price example_item = Some 10" by (simp add: example_item_def)
  show ?thesis
    using updateLineItem_line_total [OF h l i, of 3] h l i p by simp
qed

subsection \<open>Editing a top-level field\<close>

text \<open>
  Claim C7. On a valid index, \<^verbatim>\<open>updateInvoice\<close> sets the named field to the
  given value and changes nothing else: the other invoices, the line items, the
  file name and every other field keep their values, so a direct edit of
  subtotal or total_amount recomputes nothing.
\<close>

theorem updateInvoice_frame:
  assumes "index < length led"
  shows "\<exists>led'. updateInvoice led index e = Inr led' \<and>
           length led' = length led \<and>
           (\<forall>k < length led. k \<noteq> index \<longrightarrow> led' ! k = led ! k) \<and>
           led' ! index = set_field (led ! index) e \<and>
           line_items (led' ! index) = line_items (led ! index) \<and>
           filename (led' ! index) = filename (led ! index) \<and>
           (case e of
              Set_text f v \<Rightarrow>
                text_of (led' ! index) f = Some v \<and>
                (\<forall>g. g \<noteq> f \<longrightarrow> text_of (led' ! index) g = text_of (led ! index) g) \<and>
                (\<forall>a. amount_of (led' ! index) a = amount_of (led ! index) a)
            | Set_amount a v \<Rightarrow>
                amount_of (led' ! index) a = Some v \<and>
                (\<forall>b. b \<noteq> a \<longrightarrow> amount_of (led' ! index) b = amount_of (led ! index) b) \<and>
                (\<forall>g. text_of (led' ! index) g = text_of (led ! index) g))"
  using assms
  by (cases e)
     (simp_all add: updateInvoice_def set_field_text set_field_text_amount
        set_field_amount set_field_amount_text set_field_rest)

text \<open>Overriding the subtotal leaves the total and the line items alone.\<close>

theorem updateInvoice_frame_witness:
  "(0::nat) < length [example_invoice] \<and>
   (\<exists>led'. updateInvoice [example_invoice] 0 (Set_amount Subtotal 25) = Inr led' \<and>
      subtotal (led' ! 0) = Some 25 \<and> total_amount (led' ! 0) = Some 22 \<and>
      line_items (led' ! 0) = Some [example_item])"
proof -
  have h: "(0::nat) < length [example_invoice]" by simp
  from updateInvoice_frame [OF h, of "Set_amount Subtotal 25"]
  obtain led' where u: "updateInvoice [example_invoice] 0 (Set_amount Subtotal 25) = Inr led'"
    and s: "amount_of (led' ! 0) Subtotal = Some 25"
    and o: "\<forall>b. b \<noteq> Subtotal \<longrightarrow> amount_of (led' ! 0) b = amount_of ([example_invoice] ! 0) b"
    and l: "line_items (led' ! 0) = line_items ([example_invoice] ! 0)"
    by auto
  from o have "amount_of (led' ! 0) Total_amount = amount_of ([example_invoice] ! 0) Total_amount"
    by (elim allE [of _ Total_amount]) simp
  with u s l h show ?thesis by (simp add: example_invoice_def)
qed

subsection \<open>The totals after a mutation\<close>

text \<open>
  An overridden subtotal is not recomputed by an edit of the tax: after the
  edit it still differs from the sum of the line totals.
\<close>

theorem tax_edit_keeps_overridden_subtotal:
  "updateInvoice [example_invoice] 0 (Set_amount Subtotal 25) =
     Inr [example_invoice\<lparr>subtotal := Some 25\<rparr>] \<and>
   onChangeTax [example_invoice\<lparr>subtotal := Some 25\<rparr>] 0 3 =
     Inr [example_invoice\<lparr>subtotal := Some 25, tax_amount := Some 3, total_amount := Some 28\<rparr>] \<and>
   \<not> subtotal_is_sum
     (example_invoice\<lparr>subtotal := Some 25, tax_amount := Some 3, total_amount := Some 28\<rparr>)"
  by (simp add: updateInvoice_def onChangeTax_def subtotal_is_sum_def example_invoice_def
        example_item_def empty_invoice_def)

text \<open>
  Claim C1, amended. On a valid invoice index, \<^verbatim>\<open>updateLineItem\<close> and
  \<^verbatim>\<open>deleteLineItem\<close> (valid item index) and \<^verbatim>\<open>addLineItem\<close> leave the
  invoice with subtotal equal to the sum of its line totals and total_amount
  equal to subtotal plus tax_amount. An edit of the tax stores the tax and
  leaves total_amount equal to subtotal plus tax_amount; it keeps the subtotal
  and the line items as they were.
\<close>

theorem mutations_restore_totals:
  assumes "invoiceIndex < length led"
  shows "(\<forall>items itemIndex e.
            line_items (led ! invoiceIndex) = Some items \<and> itemIndex < length items \<longrightarrow>
            (\<exists>led'. updateLineItem led invoiceIndex itemIndex e = Inr led' \<and>
               subtotal_is_sum (led' ! invoiceIndex) \<and> total_is_sum (led' ! invoiceIndex))) \<and>
         (\<exists>led'. addLineItem led invoiceIndex = Inr led' \<and>
            subtotal_is_sum (led' ! invoiceIndex) \<and> total_is_sum (led' ! invoiceIndex)) \<and>
         (\<forall>items itemIndex.
            line_items (led ! invoiceIndex) = Some items \<and> itemIndex < length items \<longrightarrow>
            (\<exists>led'. deleteLineItem led invoiceIndex itemIndex = Inr led' \<and>
               subtotal_is_sum (led' ! invoiceIndex) \<and> total_is_sum (led' ! invoiceIndex))) \<and>
         (\<forall>newTax.
            \<exists>led'. onChangeTax led invoiceIndex newTax = Inr led' \<and>
              total_is_sum (led' ! invoiceIndex) \<and>
              tax_amount (led' ! invoiceIndex) = Some newTax \<and>
              subtotal (led' ! invoiceIndex) = subtotal (led ! invoiceIndex) \<and>
              line_items (led' ! invoiceIndex) = line_items (led ! invoiceIndex))"
proof (intro conjI allI impI)
  fix items itemIndex e
  assume "line_items (led ! invoiceIndex) = Some items \<and> itemIndex < length items"
  then show "\<exists>led'. updateLineItem led invoiceIndex itemIndex e = Inr led' \<and>
               subtotal_is_sum (led' ! invoiceIndex) \<and> total_is_sum (led' ! invoiceIndex)"
    using assms updateLineItem_totals [of invoiceIndex led items itemIndex e] by simp
next
  show "\<exists>led'. addLineItem led invoiceIndex = Inr led' \<and>
            subtotal_is_sum (led' ! invoiceIndex) \<and> total_is_sum (led' ! invoiceIndex)"
    using assms by (rule addLineItem_totals)
next
  fix items itemIndex
  assume "line_items (led ! invoiceIndex) = Some items \<and> itemIndex < length items"
  then show "\<exists>led'. deleteLineItem led invoiceIndex itemIndex = Inr led' \<and>
               subtotal_is_sum (led' ! invoiceIndex) \<and> total_is_sum (led' ! invoiceIndex)"
    using assms deleteLineItem_totals [of invoiceIndex led items itemIndex] by simp
next
  fix newTax
  show "\<exists>led'. onChangeTax led invoiceIndex newTax = Inr led' \<and>
              total_is_sum (led' ! invoiceIndex) \<and>
              tax_amount (led' ! invoiceIndex) = Some newTax \<and>
              subtotal (led' ! invoiceIndex) = subtotal (led ! invoiceIndex) \<and>
              line_items (led' ! invoiceIndex) = line_items (led ! invoiceIndex)"
    using assms by (rule onChangeTax_totals)
qed

text \<open>The three kinds of edit on the example invoice.\<close>

theorem mutations_restore_totals_witness:
  "(0::nat) < length [example_invoice] \<and>
   line_items ([example_invoice] ! 0) = Some [example_item] \<and>
   (0::nat) < length [example_item] \<and>
   (\<exists>led'. updateLineItem [example_invoice] 0 0 (Quantity 3) = Inr led' \<and>
      subtotal_is_sum (led' ! 0) \<and> total_is_sum (led' ! 0)) \<and>
   (\<exists>led'. deleteLineItem [example_invoice] 0 0 = Inr led' \<and>
      subtotal_is_sum (led' ! 0) \<and> total_is_sum (led' ! 0)) \<and>
   (\<exists>led'. onChangeTax [example_invoice] 0 5 = Inr led' \<and> total_is_sum (led' ! 0))"
proof -
  have h: "(0::nat) < length [example_invoice]" by simp
  have l: "line_items ([example_invoice] ! 0) = Some [example_item]"
    by (simp add: example_invoice_def)
  show ?thesis
    using mutations_restore_totals [OF h] l by fastforce
qed

subsection \<open>Deleting at an index that does not exist\<close>

text \<open>
  With an item index out of range the totals are recomputed all the same, which
  replaces an overridden subtotal; with an invoice index out of range the
  function throws.
\<close>

theorem deleteLineItem_out_of_range_recomputes:
  "deleteLineItem [example_invoice\<lparr>subtotal := Some 25\<rparr>] 0 1 = Inr [example_invoice] \<and>
   [example_invoice] \<noteq> [example_invoice\<lparr>subtotal := Some 25\<rparr>] \<and>
   deleteLineItem [example_invoice] 1 0 = Inl TypeError"
  by (simp add: deleteLineItem_def remove_at_def recalculate_def sum_line_totals_def
        example_invoice_def example_item_def empty_invoice_def)

text \<open>
  Claim C9, amended. With a valid invoice index and an item index out of range,
  \<^verbatim>\<open>deleteLineItem\<close> raises no error and removes no item, but it still
  recomputes subtotal and total_amount from the line items and the tax, so the
  ledger is unchanged exactly when these two fields already held those values.
  With an invoice index out of range, or an invoice without an item array, it
  throws a TypeError before the state is set.
\<close>

theorem deleteLineItem_out_of_range:
  "(invoiceIndex < length led \<and> line_items (led ! invoiceIndex) = Some items \<and>
      length items \<le> itemIndex \<longrightarrow>
      deleteLineItem led invoiceIndex itemIndex =
        Inr (led[invoiceIndex := (led ! invoiceIndex)
          \<lparr>subtotal := Some (sum_line_totals items),
           total_amount := Some (sum_line_totals items + or_zero (tax_amount (led ! invoiceIndex)))\<rparr>]) \<and>
      (deleteLineItem led invoiceIndex itemIndex = Inr led \<longleftrightarrow>
         subtotal (led ! invoiceIndex) = Some (sum_line_totals items) \<and>
         total_amount (led ! invoiceIndex) =
           Some (sum_line_totals items + or_zero (tax_amount (led ! invoiceIndex))))) \<and>
   (invoiceIndex < length led \<and> line_items (led ! invoiceIndex) = None \<longrightarrow>
      deleteLineItem led invoiceIndex itemIndex = Inl TypeError) \<and>
   (length led \<le> invoiceIndex \<longrightarrow> deleteLineItem led invoiceIndex itemIndex = Inl TypeError)"
proof (intro conjI impI)
  assume a: "invoiceIndex < length led \<and> line_items (led ! invoiceIndex) = Some items \<and>
      length items \<le> itemIndex"
  then have r: "remove_at itemIndex items = items" by (simp add: remove_at_out_of_range)
  have u: "recalculate (led ! invoiceIndex) items =
      (led ! invoiceIndex)\<lparr>subtotal := Some (sum_line_totals items),
           total_amount := Some (sum_line_totals items + or_zero (tax_amount (led ! invoiceIndex)))\<rparr>"
    using a by (cases "led ! invoiceIndex") (simp add: recalculate_def Let_def)
  show d: "deleteLineItem led invoiceIndex itemIndex =
        Inr (led[invoiceIndex := (led ! invoiceIndex)
          \<lparr>subtotal := Some (sum_line_totals items),
           total_amount := Some (sum_line_totals items + or_zero (tax_amount (led ! invoiceIndex)))\<rparr>])"
    using a r u by (simp add: deleteLineItem_def)
  show "deleteLineItem led invoiceIndex itemIndex = Inr led \<longleftrightarrow>
         subtotal (led ! invoiceIndex) = Some (sum_line_totals items) \<and>
         total_amount (led ! invoiceIndex) =
           Some (sum_line_totals items + or_zero (tax_amount (led ! invoiceIndex)))"
    using a by (simp add: d list_update_same_conv invoice_totals_eq eq_commute [of "led ! invoiceIndex"])
next
  assume "invoiceIndex < length led \<and> line_items (led ! invoiceIndex) = None"
  then show "deleteLineItem led invoiceIndex itemIndex = Inl TypeError"
    by (simp add: deleteLineItem_def)
next
  assume "length led \<le> invoiceIndex"
  then show "deleteLineItem led invoiceIndex itemIndex = Inl TypeError"
    by (simp add: deleteLineItem_def)
qed

text \<open>The overridden subtotal 25 of the example is replaced by 20.\<close>

theorem deleteLineItem_out_of_range_witness:
  "(0::nat) < length [example_invoice\<lparr>subtotal := Some 25\<rparr>] \<and>
   line_items ([example_invoice\<lparr>subtotal := Some 25\<rparr>] ! 0) = Some [example_item] \<and>
   length [example_item] \<le> (1::nat) \<and>
   deleteLineItem [example_invoice\<lparr>subtotal := Some 25\<rparr>] 0 1 =
     Inr [example_invoice\<lparr>subtotal := Some 25\<rparr>
            \<lparr>subtotal := Some 20, total_amount := Some 22\<rparr>] \<and>
   length ([]::ledger) \<le> 0 \<and>
   deleteLineItem [] 0 0 = Inl TypeError"
proof -
  have l: "line_items ([example_invoice\<lparr>subtotal := Some 25\<rparr>] ! 0) = Some [example_item]"
    by (simp add: example_invoice_def)
  have s: "sum_line_totals [example_item] = 20"
    by (simp add: sum_line_totals_def example_item_def)
  have t: "tax_amount example_invoice = Some 2" by (simp add: example_invoice_def)
  show ?thesis
    using deleteLineItem_out_of_range [of 0 "[example_invoice\<lparr>subtotal := Some 25\<rparr>]" "[example_item]" 1]
      deleteLineItem_out_of_range [of 0 "[]" "[]" 0] l s t
    by simp
qed

section \<open>Properties of the exporter\<close>

lemma whole_toString_examples:
  "whole_toString 0 = ''0''" "whole_toString 1 = ''1''" "whole_toString 2 = ''2''"
  "whole_toString 5 = ''5''"
  "whole_toString 10 = ''10''" "whole_toString 20 = ''20''" "whole_toString 22 = ''22''"
  "whole_toString 25 = ''25''" "whole_toString 27 = ''27''"
  by code_simp+

lemma foldl_append_concat:
  "foldl (\<lambda>acc x. acc @ f x) acc xs = acc @ concat (map f xs)"
  by (induction xs arbitrary: acc) simp_all

lemma item_row_cells:
  "item_row toStr iv k item =
     csv_line (invoice_cells iv @ item_cells toStr item @
       (if k = 0 then totals_cells toStr iv else [[], [], []]))"
  by (simp add: item_row_def csv_line_def invoice_cells_def item_cells_def totals_cells_def
        invoice_columns_def totals_columns_def)

lemma placeholder_row_cells:
  "placeholder_row toStr iv =
     csv_line (invoice_cells iv @ [quoted ''No line items'', [], [], []] @ totals_cells toStr iv)"
  by (simp add: placeholder_row_def csv_line_def invoice_cells_def totals_cells_def
        invoice_columns_def totals_columns_def)

lemma export_invoice_rows:
  "export_invoice toStr csv iv = csv @ concat (map csv_line (table_rows toStr iv))"
proof (cases "line_items iv")
  case None
  then show ?thesis
    by (simp add: export_invoice_def table_rows_def placeholder_row_cells)
next
  case (Some items)
  show ?thesis
  proof (cases items)
    case Nil
    with Some show ?thesis
      by (simp add: export_invoice_def table_rows_def placeholder_row_cells)
  next
    case (Cons x xs)
    have "foldl (\<lambda>csv (index, item). csv @ item_row toStr iv index item) csv (enumerate 0 items) =
        csv @ concat (map (\<lambda>(index, item). item_row toStr iv index item) (enumerate 0 items))"
      using foldl_append_concat [of "\<lambda>(index, item). item_row toStr iv index item" csv "enumerate 0 items"]
      by (simp add: case_prod_unfold)
    with Some Cons show ?thesis
      by (simp add: export_invoice_def table_rows_def item_row_cells case_prod_unfold comp_def)
  qed
qed

lemma foldl_export_invoice:
  "foldl (export_invoice toStr) csv led =
     csv @ concat (map csv_line (concat (map (table_rows toStr) led)))"
  by (induction led arbitrary: csv) (simp_all add: export_invoice_rows)

lemma header_cells_line: "csv_line header_cells = header"
  by (simp add: csv_line_def header_cells_def header_def)

lemma table_rows_items:
  assumes "line_items iv = Some items" and "items \<noteq> []"
  shows "table_rows toStr iv =
     map (\<lambda>(k, item). invoice_cells iv @ item_cells toStr item @
                 (if k = 0 then totals_cells toStr iv else [[], [], []]))
            (enumerate 0 items)"
  using assms by (cases items) (simp_all add: table_rows_def)

text \<open>
  Claim C3. On a ledger with at least one invoice the export is the header line
  followed by the lines of the table rows of the invoices, in order. An invoice
  with n >= 1 line items has n rows, one per item in item order; the subtotal,
  tax and total cells are filled on the first of them and empty on the later
  ones. An invoice with no line items has one row, with the description
  "No line items", empty quantity, unit price and line total cells, and its
  subtotal, tax and total filled.
\<close>

theorem exportToCSV_rows:
  "(led \<noteq> [] \<longrightarrow>
      exportToCSV toStr led =
        Some (csv_line header_cells @
              concat (map csv_line (concat (map (table_rows toStr) led))))) \<and>
   csv_line header_cells =
     ''Vendor,Invoice Number,Invoice Date,Due Date,PO Number,Description,Quantity,Unit Price,Line Total,Subtotal,Tax,Total''
       @ [CHR 0x0A] \<and>
   (\<forall>items. line_items iv = Some items \<and> items \<noteq> [] \<longrightarrow>
      length (table_rows toStr iv) = length items \<and>
      (\<forall>k < length items.
         table_rows toStr iv ! k =
           [quoted (or_empty (vendor_name iv)), quoted (or_empty (invoice_number iv)),
            quoted (or_empty (invoice_date iv)), quoted (or_empty (due_date iv)),
            quoted (or_empty (purchase_order_number iv)),
            quoted (or_empty (description (items ! k))),
            toStr (or_zero (quantity (items ! k))),
            toStr (or_zero (unit_price (items ! k))),
            toStr (or_zero (line_total (items ! k)))] @
           (if k = 0
            then [toStr (or_zero (subtotal iv)), toStr (or_zero (tax_amount iv)),
                  toStr (or_zero (total_amount iv))]
            else [[], [], []]))) \<and>
   (line_items iv = None \<or> line_items iv = Some [] \<longrightarrow>
      table_rows toStr iv =
        [[quoted (or_empty (vendor_name iv)), quoted (or_empty (invoice_number iv)),
          quoted (or_empty (invoice_date iv)), quoted (or_empty (due_date iv)),
          quoted (or_empty (purchase_order_number iv)),
          quoted ''No line items'', [], [], [],
          toStr (or_zero (subtotal iv)), toStr (or_zero (tax_amount iv)),
          toStr (or_zero (total_amount iv))]])"
proof (intro conjI allI impI)
  assume "led \<noteq> []"
  then show "exportToCSV toStr led =
        Some (csv_line header_cells @
              concat (map csv_line (concat (map (table_rows toStr) led))))"
    by (simp add: exportToCSV_def foldl_export_invoice header_cells_line)
next
  show "csv_line header_cells =
     ''Vendor,Invoice Number,Invoice Date,Due Date,PO Number,Description,Quantity,Unit Price,Line Total,Subtotal,Tax,Total''
       @ [CHR 0x0A]"
    by (simp add: header_cells_line header_def newline_def)
next
  fix items
  assume "line_items iv = Some items \<and> items \<noteq> []"
  then show "length (table_rows toStr iv) = length items"
    by (simp add: table_rows_items)
next
  fix items k
  assume a: "line_items iv = Some items \<and> items \<noteq> []" and k: "k < length items"
  from a have "table_rows toStr iv ! k =
      map (\<lambda>(k, item). invoice_cells iv @ item_cells toStr item @
                 (if k = 0 then totals_cells toStr iv else [[], [], []]))
            (enumerate 0 items) ! k"
    by (simp add: table_rows_items)
  also have "\<dots> = invoice_cells iv @ item_cells toStr (items ! k) @
                 (if k = 0 then totals_cells toStr iv else [[], [], []])"
    using k by (simp add: nth_enumerate_eq)
  finally show "table_rows toStr iv ! k =
           [quoted (or_empty (vendor_name iv)), quoted (or_empty (invoice_number iv)),
            quoted (or_empty (invoice_date iv)), quoted (or_empty (due_date iv)),
            quoted (or_empty (purchase_order_number iv)),
            quoted (or_empty (description (items ! k))),
            toStr (or_zero (quantity (items ! k))),
            toStr (or_zero (unit_price (items ! k))),
            toStr (or_zero (line_total (items ! k)))] @
           (if k = 0
            then [toStr (or_zero (subtotal iv)), toStr (or_zero (tax_amount iv)),
                  toStr (or_zero (total_amount iv))]
            else [[], [], []])"
    by (simp add: invoice_cells_def item_cells_def totals_cells_def)
next
  assume "line_items iv = None \<or> line_items iv = Some []"
  then show "table_rows toStr iv =
        [[quoted (or_empty (vendor_name iv)), quoted (or_empty (invoice_number iv)),
          quoted (or_empty (invoice_date iv)), quoted (or_empty (due_date iv)),
          quoted (or_empty (purchase_order_number iv)),
          quoted ''No line items'', [], [], [],
          toStr (or_zero (subtotal iv)), toStr (or_zero (tax_amount iv)),
          toStr (or_zero (total_amount iv))]]"
    by (auto simp: table_rows_def invoice_cells_def totals_cells_def)
qed

text \<open>
  An invoice with two items followed by one without items: two rows with the
  totals on the first, then the placeholder row.
\<close>

theorem exportToCSV_rows_witness:
  "[two_item_invoice, bare_invoice] \<noteq> [] \<and>
   line_items two_item_invoice = Some [example_item, second_item] \<and>
   [example_item, second_item] \<noteq> [] \<and>
   line_items bare_invoice = Some [] \<and>
   exportToCSV whole_toString [two_item_invoice, bare_invoice] =
     Some (csv_line header_cells @
       csv_line [quoted ''Acme'', quoted ''INV-1'', quoted [], quoted [], quoted [],
                 quoted ''Widget'', ''2'', ''10'', ''20'', ''25'', ''2'', ''27''] @
       csv_line [quoted ''Acme'', quoted ''INV-1'', quoted [], quoted [], quoted [],
                 quoted ''Gadget'', ''1'', ''5'', ''5'', [], [], []] @
       csv_line [quoted ''Acme'', quoted ''INV-2'', quoted [], quoted [], quoted [],
                 quoted ''No line items'', [], [], [], ''20'', ''2'', ''22''])"
proof -
  have l2: "line_items two_item_invoice = Some [example_item, second_item]"
    by (simp add: two_item_invoice_def)
  have l0: "line_items bare_invoice = Some []"
    by (simp add: bare_invoice_def)
  have n: "[two_item_invoice, bare_invoice] \<noteq> []" by simp
  have r2: "table_rows whole_toString two_item_invoice =
      [[quoted ''Acme'', quoted ''INV-1'', quoted [], quoted [], quoted [],
                 quoted ''Widget'', ''2'', ''10'', ''20'', ''25'', ''2'', ''27''],
       [quoted ''Acme'', quoted ''INV-1'', quoted [], quoted [], quoted [],
                 quoted ''Gadget'', ''1'', ''5'', ''5'', [], [], []]]"
    by (simp add: table_rows_def invoice_cells_def item_cells_def totals_cells_def
          two_item_invoice_def example_invoice_def
          example_item_def second_item_def empty_invoice_def whole_toString_examples)
  have r0: "table_rows whole_toString bare_invoice =
      [[quoted ''Acme'', quoted ''INV-2'', quoted [], quoted [], quoted [],
                 quoted ''No line items'', [], [], [], ''20'', ''2'', ''22'']]"
    by (simp add: table_rows_def invoice_cells_def totals_cells_def
          bare_invoice_def example_invoice_def empty_invoice_def whole_toString_examples)
  have e: "exportToCSV whole_toString [two_item_invoice, bare_invoice] =
      Some (csv_line header_cells @
        concat (map csv_line
          (concat (map (table_rows whole_toString) [two_item_invoice, bare_invoice]))))"
    using conjunct1 [OF exportToCSV_rows [of "[two_item_invoice, bare_invoice]" whole_toString
        two_item_invoice]] n
    by (rule mp)
  show ?thesis
    using l2 l0 by (simp add: e r2 r0)
qed

subsection \<open>Quoting of text cells\<close>

lemma rfc4180_quoted_plain:
  "CHR 0x22 \<notin> set s \<Longrightarrow> rfc4180_quoted s = quoted s"
proof -
  assume "CHR 0x22 \<notin> set s"
  then have "concat (map (\<lambda>c. if c = CHR 0x22 then [c, c] else [c]) s) = s"
    by (induction s) auto
  then show ?thesis by (simp add: rfc4180_quoted_def quoted_def)
qed

lemma length_rfc4180_quoted:
  "length (rfc4180_quoted s) = length (quoted s) + length (filter (\<lambda>c. c = CHR 0x22) s)"
proof -
  have "length (concat (map (\<lambda>c. if c = CHR 0x22 then [c, c] else [c]) s)) =
      length s + length (filter (\<lambda>c. c = CHR 0x22) s)"
    by (induction s) auto
  then show ?thesis by (simp add: rfc4180_quoted_def quoted_def)
qed

lemma no_quote_filter:
  "(length (filter (\<lambda>c. c = CHR 0x22) s) = 0) = (CHR 0x22 \<notin> set s)"
  by (auto simp: filter_empty_conv)

lemma item_row_standard_iff:
  "(item_row toStr iv index item = standard_item_row toStr iv index item) =
     (\<forall>s \<in> set (text_values iv item). CHR 0x22 \<notin> set s)"
proof
  assume eq: "item_row toStr iv index item = standard_item_row toStr iv index item"
  have "length (item_row toStr iv index item) + 
        (\<Sum>s\<leftarrow>text_values iv item. length (filter (\<lambda>c. c = CHR 0x22) s)) =
        length (standard_item_row toStr iv index item)"
    by (simp add: item_row_cells standard_item_row_def csv_line_def invoice_cells_def
          item_cells_def text_values_def length_rfc4180_quoted)
  with eq have "(\<Sum>s\<leftarrow>text_values iv item. length (filter (\<lambda>c. c = CHR 0x22) s)) = 0"
    by simp
  then have "\<forall>s \<in> set (text_values iv item). length (filter (\<lambda>c. c = CHR 0x22) s) = 0"
    by (simp add: sum_list_eq_0_iff)
  then show "\<forall>s \<in> set (text_values iv item). CHR 0x22 \<notin> set s"
    by (simp only: no_quote_filter)
next
  assume "\<forall>s \<in> set (text_values iv item). CHR 0x22 \<notin> set s"
  then have "map rfc4180_quoted (text_values iv item) = map quoted (text_values iv item)"
    by (simp add: rfc4180_quoted_plain)
  then show "item_row toStr iv index item = standard_item_row toStr iv index item"
    by (simp add: item_row_cells standard_item_row_def invoice_cells_def item_cells_def
          text_values_def)
qed

lemma placeholder_row_standard_iff:
  "(placeholder_row toStr iv = standard_placeholder_row toStr iv) =
     (\<forall>s \<in> set (invoice_text_values iv). CHR 0x22 \<notin> set s)"
proof
  assume eq: "placeholder_row toStr iv = standard_placeholder_row toStr iv"
  have "length (placeholder_row toStr iv) +
        (\<Sum>s\<leftarrow>invoice_text_values iv. length (filter (\<lambda>c. c = CHR 0x22) s)) =
        length (standard_placeholder_row toStr iv)"
    by (simp add: placeholder_row_cells standard_placeholder_row_def csv_line_def
          invoice_cells_def invoice_text_values_def length_rfc4180_quoted)
  with eq have "(\<Sum>s\<leftarrow>invoice_text_values iv. length (filter (\<lambda>c. c = CHR 0x22) s)) = 0"
    by simp
  then have "\<forall>s \<in> set (invoice_text_values iv). length (filter (\<lambda>c. c = CHR 0x22) s) = 0"
    by (simp add: sum_list_eq_0_iff)
  then show "\<forall>s \<in> set (invoice_text_values iv). CHR 0x22 \<notin> set s"
    by (simp only: no_quote_filter)
next
  assume "\<forall>s \<in> set (invoice_text_values iv). CHR 0x22 \<notin> set s"
  then have "map rfc4180_quoted (invoice_text_values iv) = map quoted (invoice_text_values iv)"
    by (simp add: rfc4180_quoted_plain)
  moreover have "rfc4180_quoted ''No line items'' = quoted ''No line items''"
    by (rule rfc4180_quoted_plain) simp
  ultimately show "placeholder_row toStr iv = standard_placeholder_row toStr iv"
    by (simp add: placeholder_row_cells standard_placeholder_row_def invoice_cells_def
          invoice_text_values_def)
qed

lemma export_invoice_data_rows:
  "export_invoice toStr csv iv = csv @ concat (data_rows toStr iv)"
proof (cases "line_items iv")
  case None
  then show ?thesis by (simp add: export_invoice_def data_rows_def)
next
  case (Some items)
  have "foldl (\<lambda>csv (index, item). csv @ item_row toStr iv index item) csv (enumerate 0 items) =
      csv @ concat (map (\<lambda>(index, item). item_row toStr iv index item) (enumerate 0 items))"
    using foldl_append_concat [of "\<lambda>(index, item). item_row toStr iv index item" csv
        "enumerate 0 items"]
    by (simp add: case_prod_unfold)
  with Some show ?thesis by (simp add: export_invoice_def data_rows_def)
qed

lemma foldl_export_data_rows:
  "foldl (export_invoice toStr) csv led = csv @ concat (concat (map (data_rows toStr) led))"
  by (induction led arbitrary: csv) (simp_all add: export_invoice_data_rows)

lemma data_rows_items:
  assumes "line_items iv = Some items" and "items \<noteq> []"
  shows "data_rows toStr iv = map (\<lambda>k. item_row toStr iv k (items ! k)) [0..<length items]"
proof -
  have "map (\<lambda>(index, item). item_row toStr iv index item) (enumerate 0 items) =
      map (\<lambda>k. item_row toStr iv k (items ! k)) [0..<length items]"
  proof (rule nth_equalityI)
    show "length (map (\<lambda>(index, item). item_row toStr iv index item) (enumerate 0 items)) =
        length (map (\<lambda>k. item_row toStr iv k (items ! k)) [0..<length items])"
      by simp
  next
    fix i
    assume "i < length (map (\<lambda>(index, item). item_row toStr iv index item) (enumerate 0 items))"
    then have "i < length items" by simp
    then show "map (\<lambda>(index, item). item_row toStr iv index item) (enumerate 0 items) ! i =
        map (\<lambda>k. item_row toStr iv k (items ! k)) [0..<length items] ! i"
      by (simp add: nth_enumerate_eq)
  qed
  with assms show ?thesis by (simp add: data_rows_def)
qed

lemma data_rows_none:
  assumes "line_items iv = None \<or> line_items iv = Some []"
  shows "data_rows toStr iv = [placeholder_row toStr iv]"
  using assms by (auto simp: data_rows_def)

text \<open>
  A vendor name with a comma and an order number with a line feed are written
  between the quotes as they are, and the row is the standard one.
\<close>

theorem punctuated_row_is_standard:
  "CHR '','' \<in> set (or_empty (vendor_name punctuated_invoice)) \<and>
   CHR 0x0A \<in> set (or_empty (purchase_order_number punctuated_invoice)) \<and>
   item_row whole_toString punctuated_invoice 0 example_item =
     standard_item_row whole_toString punctuated_invoice 0 example_item"
  by (simp add: item_row_standard_iff text_values_def punctuated_invoice_def
        example_invoice_def example_item_def empty_invoice_def)

text \<open>
  Claim C10, amended. The export is the header followed by the data rows of the
  invoices, each an item row or the row of an invoice without items. In both
  kinds of row every text value is written between two double quotes exactly as
  it is, whatever characters it holds; nothing is escaped. A row is the
  standard CSV row of its cells exactly when none of its text values holds a
  double quote: commas and line feeds inside the quotes are standard, an
  undoubled double quote is not.
\<close>

theorem data_rows_text_verbatim:
  "item_row toStr iv index item =
     [CHR 0x22] @ or_empty (vendor_name iv) @ [CHR 0x22] @ '','' @
     [CHR 0x22] @ or_empty (invoice_number iv) @ [CHR 0x22] @ '','' @
     [CHR 0x22] @ or_empty (invoice_date iv) @ [CHR 0x22] @ '','' @
     [CHR 0x22] @ or_empty (due_date iv) @ [CHR 0x22] @ '','' @
     [CHR 0x22] @ or_empty (purchase_order_number iv) @ [CHR 0x22] @ '','' @
     [CHR 0x22] @ or_empty (description item) @ [CHR 0x22] @ '','' @
     toStr (or_zero (quantity item)) @ '','' @
     toStr (or_zero (unit_price item)) @ '','' @
     toStr (or_zero (line_total item)) @ '','' @
     (if index = 0 then totals_columns toStr iv else '',,'') @ [CHR 0x0A] \<and>
   ((item_row toStr iv index item = standard_item_row toStr iv index item) =
      (\<forall>s \<in> set (text_values iv item). CHR 0x22 \<notin> set s)) \<and>
   placeholder_row toStr iv =
     [CHR 0x22] @ or_empty (vendor_name iv) @ [CHR 0x22] @ '','' @
     [CHR 0x22] @ or_empty (invoice_number iv) @ [CHR 0x22] @ '','' @
     [CHR 0x22] @ or_empty (invoice_date iv) @ [CHR 0x22] @ '','' @
     [CHR 0x22] @ or_empty (due_date iv) @ [CHR 0x22] @ '','' @
     [CHR 0x22] @ or_empty (purchase_order_number iv) @ [CHR 0x22] @ '','' @
     [CHR 0x22] @ ''No line items'' @ [CHR 0x22] @ '',,,,'' @
     totals_columns toStr iv @ [CHR 0x0A] \<and>
   ((placeholder_row toStr iv = standard_placeholder_row toStr iv) =
      (\<forall>s \<in> set (invoice_text_values iv). CHR 0x22 \<notin> set s)) \<and>
   (led \<noteq> [] \<longrightarrow>
      exportToCSV toStr led = Some (header @ concat (concat (map (data_rows toStr) led)))) \<and>
   (\<forall>items. line_items iv = Some items \<and> items \<noteq> [] \<longrightarrow>
      data_rows toStr iv = map (\<lambda>k. item_row toStr iv k (items ! k)) [0..<length items]) \<and>
   (line_items iv = None \<or> line_items iv = Some [] \<longrightarrow>
      data_rows toStr iv = [placeholder_row toStr iv])"
proof (intro conjI allI impI)
  show "item_row toStr iv index item =
     [CHR 0x22] @ or_empty (vendor_name iv) @ [CHR 0x22] @ '','' @
     [CHR 0x22] @ or_empty (invoice_number iv) @ [CHR 0x22] @ '','' @
     [CHR 0x22] @ or_empty (invoice_date iv) @ [CHR 0x22] @ '','' @
     [CHR 0x22] @ or_empty (due_date iv) @ [CHR 0x22] @ '','' @
     [CHR 0x22] @ or_empty (purchase_order_number iv) @ [CHR 0x22] @ '','' @
     [CHR 0x22] @ or_empty (description item) @ [CHR 0x22] @ '','' @
     toStr (or_zero (quantity item)) @ '','' @
     toStr (or_zero (unit_price item)) @ '','' @
     toStr (or_zero (line_total item)) @ '','' @
     (if index = 0 then totals_columns toStr iv else '',,'') @ [CHR 0x0A]"
    by (simp add: item_row_def invoice_columns_def quoted_def newline_def)
next
  show "(item_row toStr iv index item = standard_item_row toStr iv index item) =
      (\<forall>s \<in> set (text_values iv item). CHR 0x22 \<notin> set s)"
    by (rule item_row_standard_iff)
next
  show "placeholder_row toStr iv =
     [CHR 0x22] @ or_empty (vendor_name iv) @ [CHR 0x22] @ '','' @
     [CHR 0x22] @ or_empty (invoice_number iv) @ [CHR 0x22] @ '','' @
     [CHR 0x22] @ or_empty (invoice_date iv) @ [CHR 0x22] @ '','' @
     [CHR 0x22] @ or_empty (due_date iv) @ [CHR 0x22] @ '','' @
     [CHR 0x22] @ or_empty (purchase_order_number iv) @ [CHR 0x22] @ '','' @
     [CHR 0x22] @ ''No line items'' @ [CHR 0x22] @ '',,,,'' @
     totals_columns toStr iv @ [CHR 0x0A]"
    by (simp add: placeholder_row_def invoice_columns_def quoted_def newline_def)
next
  show "(placeholder_row toStr iv = standard_placeholder_row toStr iv) =
      (\<forall>s \<in> set (invoice_text_values iv). CHR 0x22 \<notin> set s)"
    by (rule placeholder_row_standard_iff)
next
  assume "led \<noteq> []"
  then show "exportToCSV toStr led = Some (header @ concat (concat (map (data_rows toStr) led)))"
    by (simp add: exportToCSV_def foldl_export_data_rows)
next
  fix items
  assume "line_items iv = Some items \<and> items \<noteq> []"
  then show "data_rows toStr iv = map (\<lambda>k. item_row toStr iv k (items ! k)) [0..<length items]"
    by (simp add: data_rows_items)
next
  assume "line_items iv = None \<or> line_items iv = Some []"
  then show "data_rows toStr iv = [placeholder_row toStr iv]"
    by (rule data_rows_none)
qed

text \<open>
  The rows of the examples are standard; with a double quote in the vendor name
  neither the item row nor the row of the invoice without items is.
\<close>

theorem data_rows_text_verbatim_witness:
  "item_row whole_toString example_invoice 0 example_item =
     standard_item_row whole_toString example_invoice 0 example_item \<and>
   placeholder_row whole_toString bare_invoice =
     standard_placeholder_row whole_toString bare_invoice \<and>
   CHR 0x22 \<in> set (or_empty (vendor_name nicknamed_invoice)) \<and>
   item_row whole_toString nicknamed_invoice 0 example_item \<noteq>
     standard_item_row whole_toString nicknamed_invoice 0 example_item \<and>
   CHR 0x22 \<in> set (or_empty (vendor_name nicknamed_bare_invoice)) \<and>
   placeholder_row whole_toString nicknamed_bare_invoice \<noteq>
     standard_placeholder_row whole_toString nicknamed_bare_invoice \<and>
   [nicknamed_bare_invoice] \<noteq> [] \<and>
   line_items nicknamed_bare_invoice = Some [] \<and>
   exportToCSV whole_toString [nicknamed_bare_invoice] =
     Some (header @ placeholder_row whole_toString nicknamed_bare_invoice)"
proof -
  note E = data_rows_text_verbatim [of whole_toString example_invoice 0 example_item "[]"]
  note B = data_rows_text_verbatim [of whole_toString bare_invoice 0 example_item "[]"]
  note N = data_rows_text_verbatim [of whole_toString nicknamed_invoice 0 example_item "[]"]
  note M = data_rows_text_verbatim [of whole_toString nicknamed_bare_invoice 0 example_item
      "[nicknamed_bare_invoice]"]
  have a: "\<forall>s \<in> set (text_values example_invoice example_item). CHR 0x22 \<notin> set s"
    by (simp add: text_values_def example_invoice_def example_item_def empty_invoice_def)
  have b: "\<forall>s \<in> set (invoice_text_values bare_invoice). CHR 0x22 \<notin> set s"
    by (simp add: invoice_text_values_def bare_invoice_def example_invoice_def
          empty_invoice_def)
  have q: "CHR 0x22 \<in> set (or_empty (vendor_name nicknamed_invoice))"
    by (simp add: nicknamed_invoice_def quoted_def)
  then have q': "CHR 0x22 \<in> set (or_empty (vendor_name nicknamed_bare_invoice))"
    by (simp add: nicknamed_bare_invoice_def)
  from q have c: "\<not> (\<forall>s \<in> set (text_values nicknamed_invoice example_item). CHR 0x22 \<notin> set s)"
    by (simp add: text_values_def)
  from q' have d: "\<not> (\<forall>s \<in> set (invoice_text_values nicknamed_bare_invoice). CHR 0x22 \<notin> set s)"
    by (simp add: invoice_text_values_def)
  have l: "line_items nicknamed_bare_invoice = Some []"
    by (simp add: nicknamed_bare_invoice_def)
  have n: "[nicknamed_bare_invoice] \<noteq> []" by simp
  from E [THEN conjunct2, THEN conjunct1] a
  have 1: "item_row whole_toString example_invoice 0 example_item =
     standard_item_row whole_toString example_invoice 0 example_item" by simp
  from B [THEN conjunct2, THEN conjunct2, THEN conjunct2, THEN conjunct1] b
  have 2: "placeholder_row whole_toString bare_invoice =
     standard_placeholder_row whole_toString bare_invoice" by simp
  from N [THEN conjunct2, THEN conjunct1] c
  have 3: "item_row whole_toString nicknamed_invoice 0 example_item \<noteq>
     standard_item_row whole_toString nicknamed_invoice 0 example_item" by simp
  from M [THEN conjunct2, THEN conjunct2, THEN conjunct2, THEN conjunct1] d
  have 4: "placeholder_row whole_toString nicknamed_bare_invoice \<noteq>
     standard_placeholder_row whole_toString nicknamed_bare_invoice" by simp
  from M [THEN conjunct2, THEN conjunct2, THEN conjunct2, THEN conjunct2, THEN conjunct2,
      THEN conjunct2] l
  have r: "data_rows whole_toString nicknamed_bare_invoice =
      [placeholder_row whole_toString nicknamed_bare_invoice]" by simp
  from M [THEN conjunct2, THEN conjunct2, THEN conjunct2, THEN conjunct2, THEN conjunct1,
      THEN mp, OF n]
  have 5: "exportToCSV whole_toString [nicknamed_bare_invoice] =
     Some (header @ placeholder_row whole_toString nicknamed_bare_invoice)"
    by (simp add: r)
  from 1 2 q 3 q' 4 n l 5 show ?thesis by (intro conjI)
qed

section \<open>Properties of the normalizer\<close>

lemma rev_dropWhile_takeWhile:
  "xs = rev (dropWhile P (rev xs)) @ rev (takeWhile P (rev xs))"
  by (metis rev_append rev_rev_ident takeWhile_dropWhile_id)

lemma in_dropWhile_iff:
  assumes "a \<noteq> b"
  shows "(b \<in> set (dropWhile (\<lambda>c. c \<noteq> a) s)) = (\<exists>pre mid post. s = pre @ a # mid @ b # post)"
proof
  assume m: "b \<in> set (dropWhile (\<lambda>c. c \<noteq> a) s)"
  have ne: "dropWhile (\<lambda>c. c \<noteq> a) s \<noteq> []"
  proof
    assume "dropWhile (\<lambda>c. c \<noteq> a) s = []"
    with m show False by simp
  qed
  then have "hd (dropWhile (\<lambda>c. c \<noteq> a) s) = a"
    using hd_dropWhile [of "\<lambda>c. c \<noteq> a" s] by simp
  with ne obtain rest where d: "dropWhile (\<lambda>c. c \<noteq> a) s = a # rest"
    by (cases "dropWhile (\<lambda>c. c \<noteq> a) s") auto
  with m assms have "b \<in> set rest" by auto
  then obtain mid post where "rest = mid @ b # post" by (auto dest: split_list)
  with d have "s = takeWhile (\<lambda>c. c \<noteq> a) s @ a # mid @ b # post"
    using takeWhile_dropWhile_id [of "\<lambda>c. c \<noteq> a" s] by simp
  then show "\<exists>pre mid post. s = pre @ a # mid @ b # post" by blast
next
  assume "\<exists>pre mid post. s = pre @ a # mid @ b # post"
  then obtain pre mid post where s: "s = pre @ a # mid @ b # post" by blast
  show "b \<in> set (dropWhile (\<lambda>c. c \<noteq> a) s)"
    unfolding s by (simp add: dropWhile_append)
qed

lemma match_json_None_iff:
  "(match_json s = None) = (\<not> (\<exists>pre mid post. s = pre @ CHR ''{'' # mid @ CHR ''}'' # post))"
proof -
  have "(match_json s = None) = (CHR ''}'' \<notin> set (dropWhile (\<lambda>c. c \<noteq> CHR ''{'') s))"
    by (auto simp: match_json_def Let_def dropWhile_eq_Nil_conv)
  then show ?thesis by (simp add: in_dropWhile_iff)
qed

lemma match_json_Some:
  assumes "match_json s = Some candidate"
  shows "\<exists>pre mid post. s = pre @ candidate @ post \<and>
           candidate = CHR ''{'' # mid @ [CHR ''}''] \<and>
           CHR ''{'' \<notin> set pre \<and> CHR ''}'' \<notin> set post"
proof -
  define pre where "pre = takeWhile (\<lambda>c. c \<noteq> CHR ''{'') s"
  define from_open where "from_open = dropWhile (\<lambda>c. c \<noteq> CHR ''{'') s"
  define post where "post = rev (takeWhile (\<lambda>c. c \<noteq> CHR ''}'') (rev from_open))"
  from assms have c: "candidate = rev (dropWhile (\<lambda>c. c \<noteq> CHR ''}'') (rev from_open))"
    and ne: "candidate \<noteq> []"
    by (auto simp: match_json_def Let_def from_open_def split: if_splits)
  have s: "s = pre @ from_open" by (simp add: pre_def from_open_def)
  have f: "from_open = candidate @ post"
    unfolding c post_def by (rule rev_dropWhile_takeWhile)
  have p1: "CHR ''{'' \<notin> set pre"
    unfolding pre_def by (auto dest: set_takeWhileD)
  have p2: "CHR ''}'' \<notin> set post"
    unfolding post_def by (auto dest: set_takeWhileD)
  from ne f have fne: "from_open \<noteq> []" by simp
  then have "hd from_open = CHR ''{''"
    unfolding from_open_def using hd_dropWhile [of "\<lambda>c. c \<noteq> CHR ''{''" s] by simp
  with ne f have h: "hd candidate = CHR ''{''" by simp
  from ne c have dne: "dropWhile (\<lambda>c. c \<noteq> CHR ''}'') (rev from_open) \<noteq> []" by simp
  then have "hd (dropWhile (\<lambda>c. c \<noteq> CHR ''}'') (rev from_open)) = CHR ''}''"
    using hd_dropWhile [of "\<lambda>c. c \<noteq> CHR ''}''" "rev from_open"] by simp
  with dne have l: "last candidate = CHR ''}''"
    by (simp add: c last_rev)
  from ne h obtain t where t: "candidate = CHR ''{'' # t" by (cases candidate) auto
  with l have "t \<noteq> []" by auto
  with t l have "t = butlast t @ [CHR ''}'']"
    using append_butlast_last_id [of t] by simp
  with t have "candidate = CHR ''{'' # butlast t @ [CHR ''}'']" by simp
  with s f p1 p2 show ?thesis by blast
qed

lemma has_tag_Cons:
  "has_tag (c # cs) = (if c = CHR ''<'' then CHR ''>'' \<in> set cs else has_tag cs)"
  by (simp add: has_tag_def)

lemma has_tag_iff:
  "has_tag s = (\<exists>pre mid post. s = pre @ CHR ''<'' # mid @ CHR ''>'' # post)"
  by (simp add: has_tag_def in_dropWhile_iff)

lemma set_tl_subset: "set (tl xs) \<subseteq> set xs"
  by (cases xs) auto

lemma set_strip_tags: "set (strip_tags s) \<subseteq> set s"
proof (induction s rule: strip_tags.induct)
  case 1
  then show ?case by simp
next
  case (2 c cs)
  show ?case
  proof (cases "c = CHR ''<'' \<and> CHR ''>'' \<in> set cs")
    case True
    have "set (tl (dropWhile (\<lambda>d. d \<noteq> CHR ''>'') cs)) \<subseteq>
        set (dropWhile (\<lambda>d. d \<noteq> CHR ''>'') cs)"
      by (rule set_tl_subset)
    moreover have "set (dropWhile (\<lambda>d. d \<noteq> CHR ''>'') cs) \<subseteq> set cs"
      by (auto dest: set_dropWhileD)
    moreover from "2.IH"(1) True
    have "set (strip_tags (tl (dropWhile (\<lambda>d. d \<noteq> CHR ''>'') cs))) \<subseteq>
        set (tl (dropWhile (\<lambda>d. d \<noteq> CHR ''>'') cs))"
      by simp
    ultimately have "set (strip_tags (tl (dropWhile (\<lambda>d. d \<noteq> CHR ''>'') cs))) \<subseteq> set cs"
      by blast
    moreover from True
    have "strip_tags (c # cs) = strip_tags (tl (dropWhile (\<lambda>d. d \<noteq> CHR ''>'') cs))"
      by simp
    ultimately show ?thesis by auto
  next
    case False
    with "2.IH"(2) have "set (strip_tags cs) \<subseteq> set cs" by simp
    moreover from False have "strip_tags (c # cs) = c # strip_tags cs" by auto
    ultimately show ?thesis by auto
  qed
qed

lemma strip_tags_no_tag: "\<not> has_tag (strip_tags s)"
proof (induction s rule: strip_tags.induct)
  case 1
  then show ?case by (simp add: has_tag_def)
next
  case (2 c cs)
  then show ?case
    using set_strip_tags [of cs] by (auto simp: has_tag_Cons)
qed

lemma has_tag_closing: "has_tag s \<Longrightarrow> CHR ''>'' \<in> set s"
  by (auto simp: has_tag_def dest: set_dropWhileD)

lemma strip_tags_plain: "\<not> has_tag s \<Longrightarrow> strip_tags s = s"
  by (induction s rule: strip_tags.induct)
     (auto simp: has_tag_Cons dest: has_tag_closing split: if_splits)

lemma trim_infix: "\<exists>pre post. s = pre @ trim s @ post"
proof -
  define d where "d = dropWhile is_space s"
  have "d = trim s @ rev (takeWhile is_space (rev d))"
    unfolding trim_def d_def by (rule rev_dropWhile_takeWhile)
  moreover have "s = takeWhile is_space s @ d" by (simp add: d_def)
  ultimately have "s = takeWhile is_space s @ trim s @ rev (takeWhile is_space (rev d))"
    by simp
  then show ?thesis by blast
qed

lemma trim_no_tag:
  assumes "\<not> has_tag s"
  shows "\<not> has_tag (trim s)"
proof
  assume "has_tag (trim s)"
  then obtain p m q where t: "trim s = p @ CHR ''<'' # m @ CHR ''>'' # q"
    by (auto simp: has_tag_iff)
  obtain pre post where "s = pre @ trim s @ post" using trim_infix by blast
  with t have "s = (pre @ p) @ CHR ''<'' # m @ CHR ''>'' # (q @ post)" by simp
  then have "has_tag s" unfolding has_tag_iff by blast
  with assms show False by simp
qed

lemma trim_edges:
  assumes "trim s \<noteq> []"
  shows "\<not> is_space (hd (trim s)) \<and> \<not> is_space (last (trim s))"
proof -
  define d where "d = dropWhile is_space s"
  have t: "trim s = rev (dropWhile is_space (rev d))" by (simp add: trim_def d_def)
  with assms have ne: "dropWhile is_space (rev d) \<noteq> []" by simp
  then have "\<not> is_space (hd (dropWhile is_space (rev d)))"
    using hd_dropWhile [of is_space "rev d"] by simp
  with ne have l: "\<not> is_space (last (trim s))" by (simp add: t last_rev)
  have dd: "d = trim s @ rev (takeWhile is_space (rev d))"
    unfolding t by (rule rev_dropWhile_takeWhile)
  with assms have "d \<noteq> []" by auto
  then have "\<not> is_space (hd d)"
    unfolding d_def using hd_dropWhile [of is_space s] by simp
  moreover from dd assms have "hd d = hd (trim s)" by (metis hd_append2)
  ultimately show ?thesis using l by simp
qed

lemma trim_keeps_inner:
  "\<exists>pre post. s = pre @ trim s @ post \<and>
     (\<forall>c \<in> set pre. is_space c) \<and> (\<forall>c \<in> set post. is_space c)"
proof -
  define d where "d = dropWhile is_space s"
  have "d = trim s @ rev (takeWhile is_space (rev d))"
    unfolding trim_def d_def by (rule rev_dropWhile_takeWhile)
  moreover have "s = takeWhile is_space s @ d" by (simp add: d_def)
  ultimately have "s = takeWhile is_space s @ trim s @ rev (takeWhile is_space (rev d))"
    by simp
  moreover have "\<forall>c \<in> set (takeWhile is_space s). is_space c"
    by (auto dest: set_takeWhileD)
  moreover have "\<forall>c \<in> set (rev (takeWhile is_space (rev d))). is_space c"
    by (auto dest: set_takeWhileD)
  ultimately show ?thesis by blast
qed

lemma strip_tags_first_tag:
  assumes "CHR ''<'' \<notin> set pre" and "CHR ''>'' \<notin> set mid"
  shows "strip_tags (pre @ CHR ''<'' # mid @ CHR ''>'' # rest) = pre @ strip_tags rest"
  using assms(1)
proof (induction pre)
  case Nil
  have "dropWhile (\<lambda>d. d \<noteq> CHR ''>'') (mid @ CHR ''>'' # rest) = CHR ''>'' # rest"
    using assms(2) by (simp add: dropWhile_append)
  then show ?case by simp
next
  case (Cons c pre)
  then have "c \<noteq> CHR ''<''" and "CHR ''<'' \<notin> set pre" by auto
  with Cons.IH show ?case by simp
qed

lemma is_space_chars:
  "is_space c =
     (c = CHR 0x09 \<or> c = CHR 0x0A \<or> c = CHR 0x0B \<or> c = CHR 0x0C \<or> c = CHR 0x0D \<or>
      c = CHR 0x20 \<or> c = CHR 0xA0)"
  by (simp add: is_space_def)

lemma trim_example:
  "trim ([CHR 0xA0, CHR 0x09] @ ''a  b'' @ [CHR 0x20, CHR 0xA0]) = ''a  b''"
  by (simp add: trim_def is_space_def)

lemma sanitize_example: "trim (strip_tags ''<b>INV-1</b>'') = ''INV-1''"
  by (simp add: trim_def is_space_def)

lemma map_of_sanitize_fields:
  "map_of (sanitize_fields props) key =
     map_option (\<lambda>v. if is_string v then sanitize v else v) (map_of props key)"
  by (induction props) (auto simp: sanitize_fields_def)

lemma sanitize_item_None_iff:
  "(sanitize_item item = None) = (item = JNull \<or> item = JUndefined)"
  by (cases item) (simp_all add: sanitize_item_def split: option.splits)

lemma sanitize_items_None_iff:
  "(sanitize_items items = None) = (JNull \<in> set items \<or> JUndefined \<in> set items)"
proof (induction items)
  case Nil
  then show ?case by simp
next
  case (Cons item items)
  show ?case
  proof (cases "sanitize_item item")
    case None
    then show ?thesis using sanitize_item_None_iff [of item] by auto
  next
    case (Some item')
    then have "item \<noteq> JNull \<and> item \<noteq> JUndefined"
      using sanitize_item_None_iff [of item] by auto
    with Some Cons.IH show ?thesis by (auto split: option.splits)
  qed
qed

lemma sanitize_items_Some:
  "sanitize_items items = Some items' \<Longrightarrow>
     length items' = length items \<and>
     (\<forall>i < length items. sanitize_item (items ! i) = Some (items' ! i))"
proof (induction items arbitrary: items')
  case Nil
  then show ?case by simp
next
  case (Cons item items)
  from Cons.prems obtain item' rest where i: "sanitize_item item = Some item'"
    and r: "sanitize_items items = Some rest" and e: "items' = item' # rest"
    by (auto split: option.splits)
  from Cons.IH [OF r] have l: "length rest = length items"
    and n: "\<forall>i < length items. sanitize_item (items ! i) = Some (rest ! i)"
    by simp_all
  show ?case
  proof (intro conjI allI impI)
    show "length items' = length (item # items)" using e l by simp
  next
    fix i assume "i < length (item # items)"
    then show "sanitize_item ((item # items) ! i) = Some (items' ! i)"
      using i n e by (cases i) simp_all
  qed
qed

lemma sanitize_item_object:
  "sanitize_item (JObj props) =
     Some (JObj (AList.update ''description''
       (sanitize (case map_of props ''description'' of None \<Rightarrow> JUndefined | Some v \<Rightarrow> v)) props))"
  by (simp add: sanitize_item_def split: option.splits)

lemma line_items_sanitize_fields:
  "(map_of (sanitize_fields data) ''line_items'' = Some (JArr items)) =
     (map_of data ''line_items'' = Some (JArr items))"
proof (cases "map_of data ''line_items''")
  case None
  then show ?thesis by (simp add: map_of_sanitize_fields)
next
  case (Some v)
  then show ?thesis by (cases v) (simp_all add: map_of_sanitize_fields)
qed

lemma sanitize_data_array:
  assumes "map_of data ''line_items'' = Some (JArr items)"
  shows "sanitize_data data =
     (case sanitize_items items of
        None \<Rightarrow> Inl ProcessingError
      | Some items' \<Rightarrow> Inr (AList.update ''line_items'' (JArr items') (sanitize_fields data)))"
proof -
  from assms have "map_of (sanitize_fields data) ''line_items'' = Some (JArr items)"
    by (simp add: line_items_sanitize_fields)
  then show ?thesis by (simp add: sanitize_data_def)
qed

lemma sanitize_data_no_array:
  assumes "\<forall>items. map_of data ''line_items'' \<noteq> Some (JArr items)"
  shows "sanitize_data data = Inr (sanitize_fields data)"
proof -
  from assms have "\<forall>items. map_of (sanitize_fields data) ''line_items'' \<noteq> Some (JArr items)"
    by (simp add: line_items_sanitize_fields)
  then show ?thesis
    by (auto simp: sanitize_data_def Let_def split: option.splits jsval.splits)
qed

lemma sanitize_data_error_iff:
  "(sanitize_data data = Inl e) =
     (e = ProcessingError \<and>
      (\<exists>items. map_of data ''line_items'' = Some (JArr items) \<and>
         (JNull \<in> set items \<or> JUndefined \<in> set items)))"
proof (cases "\<exists>items. map_of data ''line_items'' = Some (JArr items)")
  case True
  then obtain items where i: "map_of data ''line_items'' = Some (JArr items)" by blast
  show ?thesis
    using i sanitize_items_None_iff [of items]
    by (auto simp: sanitize_data_array [OF i] split: option.splits)
next
  case False
  then have "sanitize_data data = Inr (sanitize_fields data)"
    by (simp add: sanitize_data_no_array)
  with False show ?thesis by auto
qed

lemma sanitize_non_string: "\<not> is_string v \<Longrightarrow> sanitize v = v"
  by (cases v) simp_all

lemma sanitize_item_object_fields:
  assumes "sanitize_item (JObj props) = Some v"
  shows "\<exists>props'. v = JObj props' \<and>
     (\<forall>s. map_of props ''description'' = Some (JStr s) \<longrightarrow>
        map_of props' ''description'' = Some (JStr (trim (strip_tags s)))) \<and>
     (\<forall>w. map_of props ''description'' = Some w \<and> \<not> is_string w \<longrightarrow>
        map_of props' ''description'' = Some w) \<and>
     (\<forall>key. key \<noteq> ''description'' \<longrightarrow> map_of props' key = map_of props key)"
proof -
  define d where "d = (case map_of props ''description'' of None \<Rightarrow> JUndefined | Some v \<Rightarrow> v)"
  from assms have v: "v = JObj (AList.update ''description'' (sanitize d) props)"
    by (simp add: sanitize_item_object d_def)
  have "\<forall>s. map_of props ''description'' = Some (JStr s) \<longrightarrow>
        map_of (AList.update ''description'' (sanitize d) props) ''description'' =
          Some (JStr (trim (strip_tags s)))"
    by (simp add: update_conv' d_def)
  moreover have "\<forall>w. map_of props ''description'' = Some w \<and> \<not> is_string w \<longrightarrow>
        map_of (AList.update ''description'' (sanitize d) props) ''description'' = Some w"
    by (simp add: update_conv' d_def sanitize_non_string)
  moreover have "\<forall>key. key \<noteq> ''description'' \<longrightarrow>
        map_of (AList.update ''description'' (sanitize d) props) key = map_of props key"
    by (simp add: update_conv')
  ultimately show ?thesis using v by blast
qed

lemma sanitize_data_fields:
  assumes "sanitize_data data = Inr record" and "key \<noteq> ''line_items''"
  shows "map_of record key =
     map_option (\<lambda>v. if is_string v then sanitize v else v) (map_of data key)"
proof (cases "\<exists>items. map_of data ''line_items'' = Some (JArr items)")
  case True
  then obtain items where i: "map_of data ''line_items'' = Some (JArr items)" by blast
  with assms(1) obtain items' where
    "record = AList.update ''line_items'' (JArr items') (sanitize_fields data)"
    by (auto simp: sanitize_data_array [OF i] split: option.splits)
  with assms(2) show ?thesis by (simp add: update_conv' map_of_sanitize_fields)
next
  case False
  then have "sanitize_data data = Inr (sanitize_fields data)"
    by (simp add: sanitize_data_no_array)
  with assms(1) show ?thesis by (auto simp: map_of_sanitize_fields)
qed

lemma sanitize_data_line_items_other:
  assumes "sanitize_data data = Inr record"
    and "\<forall>items. map_of data ''line_items'' \<noteq> Some (JArr items)"
  shows "map_of record ''line_items'' =
     map_option (\<lambda>v. if is_string v then sanitize v else v) (map_of data ''line_items'')"
proof -
  from assms(2) have "sanitize_data data = Inr (sanitize_fields data)"
    by (rule sanitize_data_no_array)
  with assms(1) show ?thesis by (auto simp: map_of_sanitize_fields)
qed

lemma sanitize_data_line_items:
  assumes "sanitize_data data = Inr record"
    and "map_of data ''line_items'' = Some (JArr items)"
  shows "\<exists>items'. sanitize_items items = Some items' \<and>
     map_of record ''line_items'' = Some (JArr items')"
  using assms(1)
  by (auto simp: sanitize_data_array [OF assms(2)] update_conv' split: option.splits)

lemma sanitize_data_strings:
  assumes "sanitize_data data = Inr record" and "map_of data key = Some (JStr s)"
  shows "map_of record key = Some (JStr (trim (strip_tags s)))"
proof (cases "key = ''line_items''")
  case True
  with assms(2) have "\<forall>items. map_of data ''line_items'' \<noteq> Some (JArr items)" by simp
  from sanitize_data_line_items_other [OF assms(1) this] True assms(2)
  show ?thesis by simp
next
  case False
  from sanitize_data_fields [OF assms(1) False] assms(2) show ?thesis by simp
qed

lemma sanitize_data_others:
  assumes "sanitize_data data = Inr record"
    and "map_of data key = Some v" and "\<not> is_string v" and "\<forall>items. v \<noteq> JArr items"
  shows "map_of record key = Some v"
proof (cases "key = ''line_items''")
  case True
  with assms(2,4) have "\<forall>items. map_of data ''line_items'' \<noteq> Some (JArr items)" by simp
  from sanitize_data_line_items_other [OF assms(1) this] True assms(2,3)
  show ?thesis by simp
next
  case False
  from sanitize_data_fields [OF assms(1) False] assms(2,3) show ?thesis by simp
qed

lemma sanitize_data_absent:
  assumes "sanitize_data data = Inr record" and "map_of data key = None"
  shows "map_of record key = None"
proof (cases "key = ''line_items''")
  case True
  with assms(2) have "\<forall>items. map_of data ''line_items'' \<noteq> Some (JArr items)" by simp
  from sanitize_data_line_items_other [OF assms(1) this] True assms(2)
  show ?thesis by simp
next
  case False
  from sanitize_data_fields [OF assms(1) False] assms(2) show ?thesis by simp
qed

lemma sanitize_data_items:
  assumes "sanitize_data data = Inr record"
    and "map_of data ''line_items'' = Some (JArr items)"
  shows "\<exists>items'. map_of record ''line_items'' = Some (JArr items') \<and>
     length items' = length items \<and>
     (\<forall>i < length items. \<forall>props. items ! i = JObj props \<longrightarrow>
        (\<exists>props'. items' ! i = JObj props' \<and>
           (\<forall>s. map_of props ''description'' = Some (JStr s) \<longrightarrow>
              map_of props' ''description'' = Some (JStr (trim (strip_tags s)))) \<and>
           (\<forall>w. map_of props ''description'' = Some w \<and> \<not> is_string w \<longrightarrow>
              map_of props' ''description'' = Some w) \<and>
           (\<forall>key. key \<noteq> ''description'' \<longrightarrow> map_of props' key = map_of props key)))"
proof -
  from sanitize_data_line_items [OF assms] obtain items' where
    s: "sanitize_items items = Some items'"
    and m: "map_of record ''line_items'' = Some (JArr items')" by blast
  from sanitize_items_Some [OF s] have l: "length items' = length items"
    and n: "\<forall>i < length items. sanitize_item (items ! i) = Some (items' ! i)" by simp_all
  have "\<forall>i < length items. \<forall>props. items ! i = JObj props \<longrightarrow>
        (\<exists>props'. items' ! i = JObj props' \<and>
           (\<forall>s. map_of props ''description'' = Some (JStr s) \<longrightarrow>
              map_of props' ''description'' = Some (JStr (trim (strip_tags s)))) \<and>
           (\<forall>w. map_of props ''description'' = Some w \<and> \<not> is_string w \<longrightarrow>
              map_of props' ''description'' = Some w) \<and>
           (\<forall>key. key \<noteq> ''description'' \<longrightarrow> map_of props' key = map_of props key))"
  proof (intro allI impI)
    fix i props
    assume "i < length items" and "items ! i = JObj props"
    with n have "sanitize_item (JObj props) = Some (items' ! i)" by auto
    then show "\<exists>props'. items' ! i = JObj props' \<and>
           (\<forall>s. map_of props ''description'' = Some (JStr s) \<longrightarrow>
              map_of props' ''description'' = Some (JStr (trim (strip_tags s)))) \<and>
           (\<forall>w. map_of props ''description'' = Some w \<and> \<not> is_string w \<longrightarrow>
              map_of props' ''description'' = Some w) \<and>
           (\<forall>key. key \<noteq> ''description'' \<longrightarrow> map_of props' key = map_of props key)"
      by (rule sanitize_item_object_fields)
  qed
  with m l show ?thesis by blast
qed

lemma sanitized_text:
  "\<not> (\<exists>pre mid post. trim (strip_tags s) = pre @ CHR ''<'' # mid @ CHR ''>'' # post)"
  "trim (strip_tags s) = [] \<or>
     (\<not> is_space (hd (trim (strip_tags s))) \<and> \<not> is_space (last (trim (strip_tags s))))"
proof -
  have "\<not> has_tag (trim (strip_tags s))"
    by (rule trim_no_tag) (rule strip_tags_no_tag)
  then show "\<not> (\<exists>pre mid post. trim (strip_tags s) = pre @ CHR ''<'' # mid @ CHR ''>'' # post)"
    by (simp add: has_tag_iff)
  show "trim (strip_tags s) = [] \<or>
     (\<not> is_space (hd (trim (strip_tags s))) \<and> \<not> is_space (last (trim (strip_tags s))))"
    using trim_edges [of "strip_tags s"] by blast
qed

lemma example_match:
  "match_json example_reply = Some example_payload_text"
  "match_json null_items_text = Some null_items_text"
  by (simp_all add: match_json_def example_reply_def example_payload_text_def
        null_items_text_def quoted_def)

lemma example_texts_differ: "example_payload_text \<noteq> null_items_text"
  by (simp add: example_payload_text_def null_items_text_def quoted_def)

lemma example_parse_payload: "example_parse example_payload_text = Some example_payload"
  by (simp add: example_parse_def)

lemma example_normalize_reply: "normalize_reply example_parse example_reply = Inr example_normalized"
  by (simp add: normalize_reply_def example_match example_parse_payload)
     (simp add: sanitize_data_def sanitize_fields_def sanitize_item_def example_payload_def
        example_normalized_def trim_def is_space_def)

lemma example_no_null_items:
  "\<not> (\<exists>items. map_of example_payload ''line_items'' = Some (JArr items) \<and>
        (JNull \<in> set items \<or> JUndefined \<in> set items))"
  by (simp add: example_payload_def)

lemma or_zero_case: "or_zero x = (case x of None \<Rightarrow> 0 | Some v \<Rightarrow> v)"
  by (cases x) simp_all

subsection \<open>The outcomes of normalization\<close>

text \<open>
  A payload that parses but holds \<^verbatim>\<open>null\<close> in its item array makes the
  sanitizing of the items throw: the reply is neither without payload nor
  malformed, and normalization fails all the same.
\<close>

theorem null_line_item_fails_processing:
  "match_json null_items_text = Some null_items_text \<and>
   example_parse null_items_text = Some [(''line_items'', JArr [JNull])] \<and>
   normalize_reply example_parse null_items_text = Inl ProcessingError"
  using example_texts_differ
  by (simp add: normalize_reply_def example_match example_parse_def sanitize_data_def
        sanitize_fields_def sanitize_item_def)

text \<open>
  Claim C4, amended. Normalization fails with NoStructuredPayload exactly when
  the reply has no opening brace followed by a closing brace. Otherwise the
  candidate runs from the first opening brace through the last closing brace
  and is parsed; normalization fails with MalformedPayload exactly when the
  parse fails. On a parsed payload it fails with the route's general processing
  error exactly when line_items is an array holding \<^verbatim>\<open>null\<close> (or
  \<^verbatim>\<open>undefined\<close>), and succeeds with a record in every other case.
\<close>

theorem normalize_outcomes:
  "((normalize_reply parse responseText = Inl NoStructuredPayload) =
      (\<not> (\<exists>pre mid post. responseText = pre @ CHR ''{'' # mid @ CHR ''}'' # post))) \<and>
   (\<forall>candidate. match_json responseText = Some candidate \<longrightarrow>
      (\<exists>pre mid post. responseText = pre @ candidate @ post \<and>
         candidate = CHR ''{'' # mid @ [CHR ''}''] \<and>
         CHR ''{'' \<notin> set pre \<and> CHR ''}'' \<notin> set post) \<and>
      ((normalize_reply parse responseText = Inl MalformedPayload) = (parse candidate = None)) \<and>
      (\<forall>extractedData. parse candidate = Some extractedData \<longrightarrow>
         ((normalize_reply parse responseText = Inl ProcessingError) =
            (\<exists>items. map_of extractedData ''line_items'' = Some (JArr items) \<and>
               (JNull \<in> set items \<or> JUndefined \<in> set items))) \<and>
         ((\<exists>record. normalize_reply parse responseText = Inr record) =
            (\<not> (\<exists>items. map_of extractedData ''line_items'' = Some (JArr items) \<and>
               (JNull \<in> set items \<or> JUndefined \<in> set items))))))"
proof (intro conjI allI impI)
  show "(normalize_reply parse responseText = Inl NoStructuredPayload) =
      (\<not> (\<exists>pre mid post. responseText = pre @ CHR ''{'' # mid @ CHR ''}'' # post))"
  proof (cases "match_json responseText")
    case None
    then show ?thesis
      using match_json_None_iff [of responseText] by (simp add: normalize_reply_def)
  next
    case (Some candidate)
    then have "normalize_reply parse responseText \<noteq> Inl NoStructuredPayload"
      by (auto simp: normalize_reply_def sanitize_data_error_iff split: option.splits)
    with Some show ?thesis
      using match_json_None_iff [of responseText] by simp
  qed
next
  fix candidate
  assume "match_json responseText = Some candidate"
  then show "\<exists>pre mid post. responseText = pre @ candidate @ post \<and>
         candidate = CHR ''{'' # mid @ [CHR ''}''] \<and>
         CHR ''{'' \<notin> set pre \<and> CHR ''}'' \<notin> set post"
    by (rule match_json_Some)
next
  fix candidate
  assume "match_json responseText = Some candidate"
  then show "(normalize_reply parse responseText = Inl MalformedPayload) = (parse candidate = None)"
    by (auto simp: normalize_reply_def sanitize_data_error_iff split: option.splits)
next
  fix candidate extractedData
  assume "match_json responseText = Some candidate" and "parse candidate = Some extractedData"
  then have "normalize_reply parse responseText = sanitize_data extractedData"
    by (simp add: normalize_reply_def)
  then show "(normalize_reply parse responseText = Inl ProcessingError) =
            (\<exists>items. map_of extractedData ''line_items'' = Some (JArr items) \<and>
               (JNull \<in> set items \<or> JUndefined \<in> set items))"
    by (simp add: sanitize_data_error_iff)
next
  fix candidate extractedData
  assume "match_json responseText = Some candidate" and "parse candidate = Some extractedData"
  then have n: "normalize_reply parse responseText = sanitize_data extractedData"
    by (simp add: normalize_reply_def)
  have "(\<exists>record. sanitize_data extractedData = Inr record) =
      (\<not> (\<exists>e. sanitize_data extractedData = Inl e))"
    by (cases "sanitize_data extractedData") auto
  then show "(\<exists>record. normalize_reply parse responseText = Inr record) =
            (\<not> (\<exists>items. map_of extractedData ''line_items'' = Some (JArr items) \<and>
               (JNull \<in> set items \<or> JUndefined \<in> set items)))"
    by (simp add: n sanitize_data_error_iff)
qed

text \<open>
  A reply with prose around the payload succeeds; braces around text that is
  not JSON are malformed; a reply without braces has no payload.
\<close>

theorem normalize_outcomes_witness:
  "match_json example_reply = Some example_payload_text \<and>
   example_parse example_payload_text = Some example_payload \<and>
   (\<exists>record. normalize_reply example_parse example_reply = Inr record) \<and>
   normalize_reply example_parse example_reply \<noteq> Inl MalformedPayload \<and>
   match_json malformed_text = Some malformed_text \<and>
   example_parse malformed_text = None \<and>
   normalize_reply example_parse malformed_text = Inl MalformedPayload \<and>
   normalize_reply example_parse ''no payload here'' = Inl NoStructuredPayload \<and>
   \<not> (\<exists>pre mid post. ''no payload here'' = pre @ CHR ''{'' # mid @ CHR ''}'' # post)"
proof -
  have m: "match_json malformed_text = Some malformed_text"
    by (simp add: match_json_def malformed_text_def quoted_def)
  have p: "example_parse malformed_text = None"
    by (simp add: example_parse_def malformed_text_def example_payload_text_def
          null_items_text_def quoted_def)
  have n: "normalize_reply example_parse ''no payload here'' = Inl NoStructuredPayload"
    by (simp add: normalize_reply_def match_json_def)
  note A = normalize_outcomes [of example_parse example_reply, THEN conjunct2, THEN spec,
      THEN mp, OF example_match(1)]
  note B = A [THEN conjunct2, THEN conjunct2, THEN spec, THEN mp, OF example_parse_payload]
  from B [THEN conjunct2] example_no_null_items
  have r: "\<exists>record. normalize_reply example_parse example_reply = Inr record" by simp
  from A [THEN conjunct2, THEN conjunct1] example_parse_payload
  have q: "normalize_reply example_parse example_reply \<noteq> Inl MalformedPayload" by simp
  note C = normalize_outcomes [of example_parse malformed_text, THEN conjunct2, THEN spec,
      THEN mp, OF m]
  from C [THEN conjunct2, THEN conjunct1] p
  have f: "normalize_reply example_parse malformed_text = Inl MalformedPayload" by simp
  from normalize_outcomes [of example_parse "''no payload here''", THEN conjunct1] n
  have u: "\<not> (\<exists>pre mid post. ''no payload here'' = pre @ CHR ''{'' # mid @ CHR ''}'' # post)"
    by simp
  from example_match(1) example_parse_payload r q m p f n u show ?thesis
    by (intro conjI)
qed

subsection \<open>Sanitizing\<close>

text \<open>
  Claim C6. On a successful normalization every top-level string field holds
  its value with the tags removed and the surrounding white space trimmed, and
  so does the description of every line item that is an object; every other
  top-level field and every other field of such an item is unchanged, and an
  absent field stays absent.

  The two text operations are pinned down. Removing tags leaves a text without
  tags as it is, and on a text with a tag it keeps what precedes the first
  opening bracket, drops the text from that bracket through the next closing
  one, and goes on behind it; the result holds no opening bracket followed by a
  closing one. Trimming removes a prefix and a suffix made of white space only
  and keeps everything between them, and what it keeps neither starts nor ends
  with white space; the white space is tab, line feed, vertical tab, form feed,
  carriage return, space and no-break space. "<b>INV-1</b>" becomes "INV-1".
\<close>

theorem normalize_sanitizes:
  assumes "match_json responseText = Some candidate"
    and "parse candidate = Some extractedData"
    and "normalize_reply parse responseText = Inr record"
  shows "(\<forall>key s. map_of extractedData key = Some (JStr s) \<longrightarrow>
            map_of record key = Some (JStr (trim (strip_tags s)))) \<and>
         (\<forall>key v. map_of extractedData key = Some v \<and> \<not> is_string v \<and>
                  (\<forall>items. v \<noteq> JArr items) \<longrightarrow>
            map_of record key = Some v) \<and>
         (\<forall>key items. key \<noteq> ''line_items'' \<and> map_of extractedData key = Some (JArr items) \<longrightarrow>
            map_of record key = Some (JArr items)) \<and>
         (\<forall>key. map_of extractedData key = None \<longrightarrow> map_of record key = None) \<and>
         (\<forall>items. map_of extractedData ''line_items'' = Some (JArr items) \<longrightarrow>
            (\<exists>items'. map_of record ''line_items'' = Some (JArr items') \<and>
               length items' = length items \<and>
               (\<forall>i < length items. \<forall>props. items ! i = JObj props \<longrightarrow>
                  (\<exists>props'. items' ! i = JObj props' \<and>
                     (\<forall>s. map_of props ''description'' = Some (JStr s) \<longrightarrow>
                        map_of props' ''description'' = Some (JStr (trim (strip_tags s)))) \<and>
                     (\<forall>w. map_of props ''description'' = Some w \<and> \<not> is_string w \<longrightarrow>
                        map_of props' ''description'' = Some w) \<and>
                     (\<forall>key. key \<noteq> ''description'' \<longrightarrow>
                        map_of props' key = map_of props key))))) \<and>
         (\<forall>s. \<not> (\<exists>pre mid post.
                  trim (strip_tags s) = pre @ CHR ''<'' # mid @ CHR ''>'' # post) \<and>
              (trim (strip_tags s) = [] \<or>
               (\<not> is_space (hd (trim (strip_tags s))) \<and>
                \<not> is_space (last (trim (strip_tags s)))))) \<and>
         (\<forall>s. \<not> (\<exists>pre mid post. s = pre @ CHR ''<'' # mid @ CHR ''>'' # post) \<longrightarrow>
              strip_tags s = s) \<and>
         (\<forall>pre mid rest. CHR ''<'' \<notin> set pre \<and> CHR ''>'' \<notin> set mid \<longrightarrow>
              strip_tags (pre @ CHR ''<'' # mid @ CHR ''>'' # rest) = pre @ strip_tags rest) \<and>
         (\<forall>s. \<exists>pre post. s = pre @ trim s @ post \<and>
              (\<forall>c \<in> set pre. is_space c) \<and> (\<forall>c \<in> set post. is_space c)) \<and>
         (\<forall>c. is_space c =
              (c = CHR 0x09 \<or> c = CHR 0x0A \<or> c = CHR 0x0B \<or> c = CHR 0x0C \<or>
               c = CHR 0x0D \<or> c = CHR 0x20 \<or> c = CHR 0xA0)) \<and>
         trim ([CHR 0xA0, CHR 0x09] @ ''a  b'' @ [CHR 0x20, CHR 0xA0]) = ''a  b'' \<and>
         trim (strip_tags ''<b>INV-1</b>'') = ''INV-1''"
proof -
  from assms have d: "sanitize_data extractedData = Inr record"
    by (simp add: normalize_reply_def)
  have 1: "\<forall>key s. map_of extractedData key = Some (JStr s) \<longrightarrow>
            map_of record key = Some (JStr (trim (strip_tags s)))"
    using sanitize_data_strings [OF d] by blast
  have 2: "\<forall>key v. map_of extractedData key = Some v \<and> \<not> is_string v \<and>
                  (\<forall>items. v \<noteq> JArr items) \<longrightarrow>
            map_of record key = Some v"
    using sanitize_data_others [OF d] by blast
  have 3: "\<forall>key items. key \<noteq> ''line_items'' \<and> map_of extractedData key = Some (JArr items) \<longrightarrow>
            map_of record key = Some (JArr items)"
    using sanitize_data_fields [OF d] by simp
  have 4: "\<forall>key. map_of extractedData key = None \<longrightarrow> map_of record key = None"
    using sanitize_data_absent [OF d] by blast
  have 5: "\<forall>items. map_of extractedData ''line_items'' = Some (JArr items) \<longrightarrow>
            (\<exists>items'. map_of record ''line_items'' = Some (JArr items') \<and>
               length items' = length items \<and>
               (\<forall>i < length items. \<forall>props. items ! i = JObj props \<longrightarrow>
                  (\<exists>props'. items' ! i = JObj props' \<and>
                     (\<forall>s. map_of props ''description'' = Some (JStr s) \<longrightarrow>
                        map_of props' ''description'' = Some (JStr (trim (strip_tags s)))) \<and>
                     (\<forall>w. map_of props ''description'' = Some w \<and> \<not> is_string w \<longrightarrow>
                        map_of props' ''description'' = Some w) \<and>
                     (\<forall>key. key \<noteq> ''description'' \<longrightarrow>
                        map_of props' key = map_of props key))))"
    using sanitize_data_items [OF d] by blast
  have 6: "\<forall>s. \<not> (\<exists>pre mid post.
                  trim (strip_tags s) = pre @ CHR ''<'' # mid @ CHR ''>'' # post) \<and>
              (trim (strip_tags s) = [] \<or>
               (\<not> is_space (hd (trim (strip_tags s))) \<and>
                \<not> is_space (last (trim (strip_tags s)))))"
    using sanitized_text by blast
  have 7: "\<forall>s. \<not> (\<exists>pre mid post. s = pre @ CHR ''<'' # mid @ CHR ''>'' # post) \<longrightarrow>
              strip_tags s = s"
    using strip_tags_plain by (simp add: has_tag_iff)
  have 8: "\<forall>pre mid rest. CHR ''<'' \<notin> set pre \<and> CHR ''>'' \<notin> set mid \<longrightarrow>
              strip_tags (pre @ CHR ''<'' # mid @ CHR ''>'' # rest) = pre @ strip_tags rest"
    using strip_tags_first_tag by blast
  have 9: "\<forall>s. \<exists>pre post. s = pre @ trim s @ post \<and>
              (\<forall>c \<in> set pre. is_space c) \<and> (\<forall>c \<in> set post. is_space c)"
    using trim_keeps_inner by blast
  have 10: "\<forall>c. is_space c =
              (c = CHR 0x09 \<or> c = CHR 0x0A \<or> c = CHR 0x0B \<or> c = CHR 0x0C \<or>
               c = CHR 0x0D \<or> c = CHR 0x20 \<or> c = CHR 0xA0)"
    using is_space_chars by blast
  from 1 2 3 4 5 6 7 8 9 10 trim_example sanitize_example show ?thesis by (intro conjI)
qed

text \<open>
  The invoice number of the example reply loses its tag.
\<close>

theorem normalize_sanitizes_witness:
  "match_json example_reply = Some example_payload_text \<and>
   example_parse example_payload_text = Some example_payload \<and>
   normalize_reply example_parse example_reply = Inr example_normalized \<and>
   map_of example_payload ''invoice_number'' = Some (JStr ''<b>INV-1</b>'') \<and>
   map_of example_normalized ''invoice_number'' = Some (JStr ''INV-1'')"
proof -
  have i: "map_of example_payload ''invoice_number'' = Some (JStr ''<b>INV-1</b>'')"
    by (simp add: example_payload_def)
  note S = normalize_sanitizes [OF example_match(1) example_parse_payload example_normalize_reply]
  from S [THEN conjunct1, THEN spec, THEN spec, THEN mp, OF i]
  have "map_of example_normalized ''invoice_number'' =
      Some (JStr (trim (strip_tags ''<b>INV-1</b>'')))" .
  then have o: "map_of example_normalized ''invoice_number'' = Some (JStr ''INV-1'')"
    by (simp only: sanitize_example)
  from example_match(1) example_parse_payload example_normalize_reply i o show ?thesis
    by (intro conjI)
qed

subsection \<open>Absent numbers\<close>

text \<open>
  An item without a quantity is exported and shown with the quantity 0.
\<close>

theorem absent_quantity_exports_zero:
  "quantity unknown_quantity_item = None \<and>
   exportToCSV whole_toString [unknown_quantity_invoice] =
     Some (header @
       quoted ''Acme'' @ '','' @ quoted ''INV-1'' @ '','' @ quoted [] @ '','' @
       quoted [] @ '','' @ quoted [] @ '','' @ quoted ''Widget'' @
       '',0,10,20,20,2,22'' @ newline) \<and>
   line_item_inputs unknown_quantity_item = (''Widget'', 0, 10, 20)"
proof -
  have w: "whole_toString 0 = ''0''" "whole_toString 2 = ''2''" "whole_toString 10 = ''10''"
    "whole_toString 20 = ''20''" "whole_toString 22 = ''22''"
    by code_simp+
  show ?thesis
    by (simp add: exportToCSV_def export_invoice_def item_row_def invoice_columns_def
          totals_columns_def line_item_inputs_def unknown_quantity_invoice_def
          unknown_quantity_item_def example_invoice_def example_item_def empty_invoice_def w)
qed

text \<open>
  Claim C8, amended. Wherever the export or the edit form produces a number
  for an absent numeric field it is 0, for the quantity of a line item as for
  every other numeric field; no default of 1 is applied. Normalization leaves
  every field that is not a string as it is, a \<^verbatim>\<open>null\<close> as
  \<^verbatim>\<open>null\<close> and an absent field absent, at the top level and in the line
  items that are objects.
\<close>

theorem absent_numbers_default_to_zero:
  "item_row toStr iv index item =
     invoice_columns iv @ quoted (or_empty (description item)) @ '','' @
     toStr (case quantity item of None \<Rightarrow> 0 | Some q \<Rightarrow> q) @ '','' @
     toStr (case unit_price item of None \<Rightarrow> 0 | Some p \<Rightarrow> p) @ '','' @
     toStr (case line_total item of None \<Rightarrow> 0 | Some t \<Rightarrow> t) @ '','' @
     (if index = 0
      then toStr (case subtotal iv of None \<Rightarrow> 0 | Some x \<Rightarrow> x) @ '','' @
           toStr (case tax_amount iv of None \<Rightarrow> 0 | Some x \<Rightarrow> x) @ '','' @
           toStr (case total_amount iv of None \<Rightarrow> 0 | Some x \<Rightarrow> x)
      else '',,'') @ newline \<and>
   placeholder_row toStr iv =
     invoice_columns iv @ quoted ''No line items'' @ '',,,,'' @
     toStr (case subtotal iv of None \<Rightarrow> 0 | Some x \<Rightarrow> x) @ '','' @
     toStr (case tax_amount iv of None \<Rightarrow> 0 | Some x \<Rightarrow> x) @ '','' @
     toStr (case total_amount iv of None \<Rightarrow> 0 | Some x \<Rightarrow> x) @ newline \<and>
   line_item_inputs item =
     (or_empty (description item),
      (case quantity item of None \<Rightarrow> 0 | Some q \<Rightarrow> q),
      (case unit_price item of None \<Rightarrow> 0 | Some p \<Rightarrow> p),
      (case line_total item of None \<Rightarrow> 0 | Some t \<Rightarrow> t)) \<and>
   amount_inputs iv =
     ((case subtotal iv of None \<Rightarrow> 0 | Some x \<Rightarrow> x),
      (case tax_amount iv of None \<Rightarrow> 0 | Some x \<Rightarrow> x),
      (case total_amount iv of None \<Rightarrow> 0 | Some x \<Rightarrow> x)) \<and>
   (match_json responseText = Some candidate \<and> parse candidate = Some extractedData \<and>
    normalize_reply parse responseText = Inr record \<longrightarrow>
      (\<forall>key v. map_of extractedData key = Some v \<and> \<not> is_string v \<and>
               (\<forall>items. v \<noteq> JArr items) \<longrightarrow>
         map_of record key = Some v) \<and>
      (\<forall>key. map_of extractedData key = None \<longrightarrow> map_of record key = None) \<and>
      (\<forall>items. map_of extractedData ''line_items'' = Some (JArr items) \<longrightarrow>
         (\<exists>items'. map_of record ''line_items'' = Some (JArr items') \<and>
            length items' = length items \<and>
            (\<forall>i < length items. \<forall>props. items ! i = JObj props \<longrightarrow>
               (\<exists>props'. items' ! i = JObj props' \<and>
                  (\<forall>key. key \<noteq> ''description'' \<longrightarrow>
                     map_of props' key = map_of props key))))))"
proof (intro conjI impI)
  assume a: "match_json responseText = Some candidate \<and> parse candidate = Some extractedData \<and>
    normalize_reply parse responseText = Inr record"
  then have d: "sanitize_data extractedData = Inr record"
    by (auto simp: normalize_reply_def)
  show "\<forall>key v. map_of extractedData key = Some v \<and> \<not> is_string v \<and>
               (\<forall>items. v \<noteq> JArr items) \<longrightarrow>
         map_of record key = Some v"
    using sanitize_data_others [OF d] by blast
  show "\<forall>key. map_of extractedData key = None \<longrightarrow> map_of record key = None"
    using sanitize_data_absent [OF d] by blast
  show "\<forall>items. map_of extractedData ''line_items'' = Some (JArr items) \<longrightarrow>
         (\<exists>items'. map_of record ''line_items'' = Some (JArr items') \<and>
            length items' = length items \<and>
            (\<forall>i < length items. \<forall>props. items ! i = JObj props \<longrightarrow>
               (\<exists>props'. items' ! i = JObj props' \<and>
                  (\<forall>key. key \<noteq> ''description'' \<longrightarrow>
                     map_of props' key = map_of props key))))"
  proof (intro allI impI)
    fix items
    assume "map_of extractedData ''line_items'' = Some (JArr items)"
    from sanitize_data_items [OF d this] obtain items' where
      m: "map_of record ''line_items'' = Some (JArr items')"
      and l: "length items' = length items"
      and p: "\<forall>i < length items. \<forall>props. items ! i = JObj props \<longrightarrow>
        (\<exists>props'. items' ! i = JObj props' \<and>
           (\<forall>s. map_of props ''description'' = Some (JStr s) \<longrightarrow>
              map_of props' ''description'' = Some (JStr (trim (strip_tags s)))) \<and>
           (\<forall>w. map_of props ''description'' = Some w \<and> \<not> is_string w \<longrightarrow>
              map_of props' ''description'' = Some w) \<and>
           (\<forall>key. key \<noteq> ''description'' \<longrightarrow> map_of props' key = map_of props key))"
      by blast
    from p have "\<forall>i < length items. \<forall>props. items ! i = JObj props \<longrightarrow>
               (\<exists>props'. items' ! i = JObj props' \<and>
                  (\<forall>key. key \<noteq> ''description'' \<longrightarrow>
                     map_of props' key = map_of props key))"
      by blast
    with m l show "\<exists>items'. map_of record ''line_items'' = Some (JArr items') \<and>
            length items' = length items \<and>
            (\<forall>i < length items. \<forall>props. items ! i = JObj props \<longrightarrow>
               (\<exists>props'. items' ! i = JObj props' \<and>
                  (\<forall>key. key \<noteq> ''description'' \<longrightarrow>
                     map_of props' key = map_of props key)))"
      by blast
  qed
qed (simp_all add: item_row_def placeholder_row_def totals_columns_def line_item_inputs_def
       amount_inputs_def or_zero_case)

text \<open>
  The null subtotal and the absent tax of the example payload survive
  normalization.
\<close>

theorem absent_numbers_default_to_zero_witness:
  "match_json example_reply = Some example_payload_text \<and>
   example_parse example_payload_text = Some example_payload \<and>
   normalize_reply example_parse example_reply = Inr example_normalized \<and>
   map_of example_payload ''subtotal'' = Some JNull \<and>
   map_of example_normalized ''subtotal'' = Some JNull \<and>
   map_of example_payload ''tax_amount'' = None \<and>
   map_of example_normalized ''tax_amount'' = None"
proof -
  have h: "match_json example_reply = Some example_payload_text \<and>
      example_parse example_payload_text = Some example_payload \<and>
      normalize_reply example_parse example_reply = Inr example_normalized"
    using example_match(1) example_parse_payload example_normalize_reply by (intro conjI)
  have s: "map_of example_payload ''subtotal'' = Some JNull"
    and t: "map_of example_payload ''tax_amount'' = None"
    by (simp_all add: example_payload_def)
  note N = absent_numbers_default_to_zero [of whole_toString example_invoice 0 example_item
      example_reply example_payload_text example_parse example_payload example_normalized,
      THEN conjunct2, THEN conjunct2, THEN conjunct2, THEN conjunct2, THEN mp, OF h]
  have "\<not> is_string JNull \<and> (\<forall>items. JNull \<noteq> JArr items)" by simp
  with N [THEN conjunct1, THEN spec, THEN spec, of "''subtotal''" JNull] s
  have s': "map_of example_normalized ''subtotal'' = Some JNull" by blast
  from N [THEN conjunct2, THEN conjunct1, THEN spec, THEN mp, OF t]
  have t': "map_of example_normalized ''tax_amount'' = None" .
  from h s s' t t' show ?thesis by simp
qed

section \<open>Properties of the batch loop\<close>

lemma document_results_Cons:
  "document_results fetch w (f # fs) =
     (f, process_response (name f) (fst (fetch w f))) #
       document_results fetch (snd (fetch w f)) fs"
  by (simp add: document_results_def split: prod.splits)

lemma document_results_Nil: "document_results fetch w [] = []"
  by (simp add: document_results_def)

lemma process_files_acc:
  "process_files fetch w files results failedFiles =
     (results @ successes (document_results fetch w files),
      failedFiles @ failures (document_results fetch w files))"
proof (induction files arbitrary: w results failedFiles)
  case Nil
  then show ?case by (simp add: document_results_Nil successes_def failures_def)
next
  case (Cons f fs)
  obtain outcome w' where o: "fetch w f = (outcome, w')" by (cases "fetch w f")
  show ?case
  proof (cases "process_response (name f) outcome")
    case None
    with o Cons.IH [of w' results "failedFiles @ [name f]"] show ?thesis
      by (simp add: document_results_Cons successes_def failures_def)
  next
    case (Some r)
    with o Cons.IH [of w' "results @ [r]" failedFiles] show ?thesis
      by (simp add: document_results_Cons successes_def failures_def)
  qed
qed

lemma length_outcomes: "length (outcomes fetch w files) = length files"
  by (induction files arbitrary: w) (simp_all split: prod.splits)

lemma map_fst_document_results: "map fst (document_results fetch w files) = files"
proof -
  have "map fst (document_results fetch w files) = map fst (zip files (outcomes fetch w files))"
    by (simp add: document_results_def case_prod_unfold comp_def)
  then show ?thesis by (simp add: length_outcomes)
qed

lemma successes_filter:
  "successes rs = map (the \<circ> snd) (filter (\<lambda>(f, r). r \<noteq> None) rs)"
  by (induction rs) (auto simp: successes_def)

lemma failures_filter:
  "failures rs = map (name \<circ> fst) (filter (\<lambda>(f, r). r = None) rs)"
  by (induction rs) (auto simp: failures_def)

lemma document_results_nth:
  assumes "k < length files"
  shows "document_results fetch w files ! k =
     (files ! k, process_response (name (files ! k)) (outcomes fetch w files ! k))"
  using assms by (simp add: document_results_def length_outcomes)

text \<open>
  Claim C5. Every document of the batch is processed, in input order, whatever
  the outcomes of the others. The records stored are those of the documents
  that succeeded, in input order; the names reported are those of the documents
  that failed, in a list of their own. A rejected request, a response that is
  not ok, and hence a reply without payload or with a malformed payload (both
  answered with status 500), make the document fail.
\<close>

theorem handleSubmit_isolates_failures:
  "(files \<noteq> [] \<longrightarrow>
      handleSubmit fetch w files =
        Some (successes (document_results fetch w files),
              failures (document_results fetch w files))) \<and>
   length (document_results fetch w files) = length files \<and>
   (\<forall>k < length files.
      document_results fetch w files ! k =
        (files ! k, process_response (name (files ! k)) (outcomes fetch w files ! k))) \<and>
   successes (document_results fetch w files) =
     map (the \<circ> snd) (filter (\<lambda>(f, r). r \<noteq> None) (document_results fetch w files)) \<and>
   failures (document_results fetch w files) =
     map (name \<circ> fst) (filter (\<lambda>(f, r). r = None) (document_results fetch w files)) \<and>
   process_response file_name Rejected = None \<and>
   process_response file_name (Response False result) = None \<and>
   \<not> response_ok (response_status (Inl NoStructuredPayload)) \<and>
   \<not> response_ok (response_status (Inl MalformedPayload))"
proof (intro conjI allI impI)
  assume "files \<noteq> []"
  then show "handleSubmit fetch w files =
        Some (successes (document_results fetch w files),
              failures (document_results fetch w files))"
    by (simp add: handleSubmit_def process_files_acc)
next
  show "length (document_results fetch w files) = length files"
    using map_fst_document_results [of fetch w files] by (metis length_map)
next
  fix k assume "k < length files"
  then show "document_results fetch w files ! k =
        (files ! k, process_response (name (files ! k)) (outcomes fetch w files ! k))"
    by (rule document_results_nth)
next
  show "successes (document_results fetch w files) =
     map (the \<circ> snd) (filter (\<lambda>(f, r). r \<noteq> None) (document_results fetch w files))"
    by (rule successes_filter)
next
  show "failures (document_results fetch w files) =
     map (name \<circ> fst) (filter (\<lambda>(f, r). r = None) (document_results fetch w files))"
    by (rule failures_filter)
qed (simp_all add: response_ok_def)

text \<open>
  Three documents, the second request rejected: two records, for the first and
  the third document, and the name of the second.
\<close>

theorem handleSubmit_isolates_failures_witness:
  "example_files \<noteq> [] \<and>
   handleSubmit example_fetch 0 example_files =
     Some ([JObj [(''vendor_name'', JStr ''Acme''), (''_filename'', JStr ''a.pdf'')],
            JObj [(''vendor_name'', JStr ''Acme''), (''_filename'', JStr ''c.pdf'')]],
           [''b.pdf''])"
proof -
  have n: "example_files \<noteq> []" by (simp add: example_files_def)
  have d: "document_results example_fetch 0 example_files =
      [(example_files ! 0,
          Some (JObj [(''vendor_name'', JStr ''Acme''), (''_filename'', JStr ''a.pdf'')])),
       (example_files ! 1, None),
       (example_files ! 2,
          Some (JObj [(''vendor_name'', JStr ''Acme''), (''_filename'', JStr ''c.pdf'')]))]"
    by (simp add: document_results_def example_files_def example_fetch_def)
  have s: "successes (document_results example_fetch 0 example_files) =
      [JObj [(''vendor_name'', JStr ''Acme''), (''_filename'', JStr ''a.pdf'')],
       JObj [(''vendor_name'', JStr ''Acme''), (''_filename'', JStr ''c.pdf'')]]"
    unfolding d by (simp add: successes_def)
  have f: "failures (document_results example_fetch 0 example_files) = [''b.pdf'']"
    unfolding d by (simp add: failures_def example_files_def)
  from handleSubmit_isolates_failures [of example_files example_fetch 0, THEN conjunct1,
      THEN mp, OF n]
  have "handleSubmit example_fetch 0 example_files =
      Some (successes (document_results example_fetch 0 example_files),
            failures (document_results example_fetch 0 example_files))" .
  with n s f show ?thesis by simp
qed

end
